theory Spec2Isabelle
  imports Main "HOL-Library.Word"
begin

unbundle bit_operations_syntax

section \<open>Runtime support of the FreeRTOS port for Teensy boards\<close>

text \<open>
  A shallow embedding of \<^verbatim>\<open>src/portable/teensy_common.cpp\<close>. The target is a 32-bit
  ARM core: \<^verbatim>\<open>int\<close>, \<^verbatim>\<open>unsigned int\<close>, \<^verbatim>\<open>uintptr_t\<close>, \<^verbatim>\<open>ptrdiff_t\<close> and data pointers
  are 32-bit words, and arithmetic on them wraps around.
\<close>

type_synonym u8 = "8 word"
type_synonym u32 = "32 word"
type_synonym u64 = "64 word"

subsection \<open>The diagnostic formatter\<close>

text \<open>
  A C string is a \<^typ>\<open>string\<close>; reading at a position gives the character there, and
  the terminating zero at the end of the list. A zero character inside the list ends
  the string as it does in C.
\<close>

definition NUL :: char where
  "NUL = CHR 0x00"

definition cur :: "string \<Rightarrow> char" where
  "cur p = (case p of [] \<Rightarrow> NUL | c # _ \<Rightarrow> c)"

definition is_digit :: "char \<Rightarrow> bool" where
  "is_digit c = ((48::nat) \<le> of_char c \<and> of_char c \<le> (57::nat))"

text \<open>
  The formatter hands every character to the callback \<^verbatim>\<open>print\<close>. The model returns the
  characters handed over, in order. \<open>None\<close> stands for undefined behaviour: a conversion
  that reads an argument the caller did not pass.
\<close>

definition then_print :: "string option \<Rightarrow> string option \<Rightarrow> string option" where
  "then_print a b =
     (case a of None \<Rightarrow> None
      | Some x \<Rightarrow> (case b of None \<Rightarrow> None | Some y \<Rightarrow> Some (x @ y)))"

text \<open>
  The loop of \<^verbatim>\<open>exc_puint\<close>: it fills \<^verbatim>\<open>buf\<close> from index 10 downwards, so each new digit
  lands in front of the digits already written; \<open>buf\<close> is the text from \<^verbatim>\<open>buf + i\<close> to the
  terminating zero at \<^verbatim>\<open>buf[11]\<close>. A 32-bit number has at most 10 digits, so \<^verbatim>\<open>i\<close> stays
  at 1 or above.
\<close>

function puint_digits :: "u32 \<Rightarrow> string \<Rightarrow> string" where
  "puint_digits num buf =
     (let buf' = char_of (unat (num mod 10) + 48) # buf;
          num' = num div 10
      in if num' = 0 then buf' else puint_digits num' buf')"
  by pat_completeness auto
termination
proof (relation "measure (\<lambda>(num, buf). unat num)", goal_cases)
  case 1
  show ?case by simp
next
  case (2 num buf buf' num')
  then have "num \<noteq> 0" by auto
  then have "0 < unat num" by (simp add: unat_gt_0)
  then have "unat num div 10 < unat num" by simp
  with 2 show ?case by (simp add: unat_div)
qed

text \<open>
  The loop of the \<^verbatim>\<open>%x\<close> conversion, \<^verbatim>\<open>for (n = 0; n < 8; n++)\<close>, with the number of
  rounds left as the first argument.
\<close>

fun hex_digits :: "nat \<Rightarrow> u32 \<Rightarrow> string" where
  "hex_digits 0 val = []"
| "hex_digits (Suc k) val =
     (let d = (drop_bit 28 val) AND 15
      in char_of (if d < 10 then unat d + 48 else unat d - 10 + 65) # hex_digits k (push_bit 4 val))"

text \<open>Two facts about reading a string, for the termination proof below.\<close>

lemma cur_nonempty: "cur p = c \<Longrightarrow> c \<noteq> NUL \<Longrightarrow> 0 < length p"
  by (cases p) (auto simp: cur_def)

lemma length_tl_le: "length (tl p) \<le> length p"
  by (cases p) auto

text \<open>
  \<^verbatim>\<open>exc_puint\<close> and \<^verbatim>\<open>exc_printf\<close>. \<open>mem\<close> is the memory read as C strings (the text at an
  address), used by \<^verbatim>\<open>%s\<close>, which reads its argument as a 32-bit \<^verbatim>\<open>int\<close> and casts it to a
  pointer. \<open>args\<close> are the variadic arguments, each one 32-bit slot. The nested calls
  (for \<^verbatim>\<open>%s\<close> and from \<^verbatim>\<open>exc_puint\<close>) pass no variadic argument. Negating the most
  negative \<^verbatim>\<open>int\<close> wraps around, as the two's complement machine does.
\<close>

function (sequential) exc_puint :: "(u32 \<Rightarrow> string) \<Rightarrow> u32 \<Rightarrow> string option"
  and exc_printf :: "(u32 \<Rightarrow> string) \<Rightarrow> string \<Rightarrow> u32 list \<Rightarrow> string option" where
  "exc_puint mem num = exc_printf mem (puint_digits num []) []"
| "exc_printf mem format args =
     (if cur format = NUL then Some []
      else if cur format = CHR ''%'' then
        (let f1 = tl format in
         if cur f1 = CHR ''%'' then then_print (Some [cur f1]) (exc_printf mem (tl f1) args)
         else
           (let f2 = (if cur f1 = CHR ''-'' then tl f1 else f1);
                f3 = dropWhile is_digit f2;
                f4 = (if cur f3 = CHR ''l'' then tl f3 else f3)
            in if cur f4 = NUL then Some []
               else if cur f4 = CHR ''s'' then
                 (case args of [] \<Rightarrow> None
                  | a # rest \<Rightarrow>
                      then_print (exc_printf mem (mem a) []) (exc_printf mem (tl f4) rest))
               else if cur f4 = CHR ''d'' then
                 (case args of [] \<Rightarrow> None
                  | n # rest \<Rightarrow>
                      then_print
                        (if n <s 0 then then_print (Some ''-'') (exc_puint mem (- n))
                         else exc_puint mem n)
                        (exc_printf mem (tl f4) rest))
               else if cur f4 = CHR ''u'' then
                 (case args of [] \<Rightarrow> None
                  | n # rest \<Rightarrow> then_print (exc_puint mem n) (exc_printf mem (tl f4) rest))
               else if cur f4 = CHR ''x'' \<or> cur f4 = CHR ''X'' then
                 (case args of [] \<Rightarrow> None
                  | val # rest \<Rightarrow>
                      then_print (Some (hex_digits 8 val)) (exc_printf mem (tl f4) rest))
               else if cur f4 = CHR ''c'' then
                 (case args of [] \<Rightarrow> None
                  | c # rest \<Rightarrow>
                      then_print (Some [char_of (unat c)]) (exc_printf mem (tl f4) rest))
               else exc_printf mem (tl f4) args))
      else then_print (Some [cur format]) (exc_printf mem (tl format) args))"
  by pat_completeness auto

termination
proof (relation "measures
           [\<lambda>x. case x of Inl (mem, num) \<Rightarrow> 0 | Inr (mem, format, args) \<Rightarrow> length args,
            \<lambda>x. case x of Inl (mem, num) \<Rightarrow> 1 | Inr (mem, format, args) \<Rightarrow> 0,
            \<lambda>x. case x of Inl (mem, num) \<Rightarrow> 0 | Inr (mem, format, args) \<Rightarrow> length format]",
       goal_cases)
  case 1
  show ?case by simp
next
  case (2 mem num)
  show ?case by simp
next
  case (3 mem format args f1)
  then have "0 < length format" by (auto dest: cur_nonempty simp: NUL_def)
  with 3 show ?case by simp
next
  case 4 then show ?case by simp
next
  case 5 then show ?case by simp
next
  case 6 then show ?case by simp
next
  case 7 then show ?case by simp
next
  case 8 then show ?case by simp
next
  case 9 then show ?case by simp
next
  case 10 then show ?case by simp
next
  case 11 then show ?case by simp
next
  case 12 then show ?case by simp
next
  case (13 mem format args f1 f2 f3 f4)
  have p: "0 < length format" using 13 by (auto dest: cur_nonempty simp: NUL_def)
  have "length f2 \<le> length f1" unfolding 13(5) by (simp add: length_tl_le)
  moreover have "length f3 \<le> length f2" unfolding 13(6) by (rule length_dropWhile_le)
  moreover have "length f4 \<le> length f3" unfolding 13(7) by (simp add: length_tl_le)
  moreover have "length (tl f4) \<le> length f4" by (rule length_tl_le)
  moreover have "length f1 < length format" using p 13(3) by simp
  ultimately show ?case by simp
next
  case (14 mem format args)
  then have "0 < length format" by (cases format) (auto simp: cur_def)
  then show ?case by simp
qed

declare exc_puint.simps [simp del] exc_printf.simps [simp del] puint_digits.simps [simp del]

text \<open>
  The digit of a value below 16 in upper-case hexadecimal notation, as a reference for
  what the \<^verbatim>\<open>%x\<close> conversion prints.
\<close>

definition hex_upper :: "u32 \<Rightarrow> char" where
  "hex_upper d = ''0123456789ABCDEF'' ! unat d"

subsection \<open>Configuration, machine state and the print path\<close>

text \<open>
  The link-time symbols and build options the source refers to are parameters:
  the addresses of \<^verbatim>\<open>_ebss\<close>, \<^verbatim>\<open>_estack\<close> and \<^verbatim>\<open>prvTaskExitError\<close>, whether
  \<^verbatim>\<open>configUSE_MALLOC_FAILED_HOOK == 1\<close>, and the pin \<^verbatim>\<open>get_debug_led_pin()\<close> returns.
\<close>

record config =
  ebss :: u32
  estack :: u32
  prvTaskExitError :: u32
  use_malloc_failed_hook :: bool
  debug_led_pin :: u8

text \<open>
  Calls into the board and scheduler libraries are recorded in the order they are made.
\<close>

datatype hw_call =
    TaskSuspendAll
  | PinModeOutput u8
  | SetArmClock nat
  | DigitalWriteFast u8 bool
  | DelayMs nat

record machine =
  current_heap_end :: u32
  primask :: u32
  g_trace_lr :: u32
  serial :: string
  hw_calls :: "hw_call list"
  cstr :: "u32 \<Rightarrow> string"

text \<open>
  The state at start-up: \<^verbatim>\<open>_g_current_heap_end\<close> is initialised to \<^verbatim>\<open>&_ebss + 32\<close>.
\<close>

definition boot :: "config \<Rightarrow> (u32 \<Rightarrow> string) \<Rightarrow> machine" where
  "boot cfg mem =
     \<lparr>current_heap_end = ebss cfg + 32, primask = 0, g_trace_lr = 0, serial = [],
      hw_calls = [], cstr = mem\<rparr>"

definition call :: "hw_call \<Rightarrow> machine \<Rightarrow> machine" where
  "call c s = s\<lparr>hw_calls := hw_calls s @ [c]\<rparr>"

text \<open>
  The macro \<^verbatim>\<open>EXC_PRINTF\<close> is declared in \<^verbatim>\<open>teensy.h\<close>, outside this file; it is taken as
  \<^verbatim>\<open>exc_printf(serialport_put, ...)\<close>, the byte sink of the fault reporter, whose
  characters are collected in \<open>serial\<close>. Every use in the source passes the arguments
  its format consumes (see \<open>EXC_PRINTF_sites\<close> below), so the case \<open>None\<close> does not arise.
\<close>

definition EXC_PRINTF :: "string \<Rightarrow> u32 list \<Rightarrow> machine \<Rightarrow> machine" where
  "EXC_PRINTF format args s =
     (case exc_printf (cstr s) format args of
        None \<Rightarrow> s
      | Some text \<Rightarrow> s\<lparr>serial := serial s @ text\<rparr>)"

definition CRLF :: string where
  "CRLF = [CHR 0x0D, CHR 0x0A]"

definition TAB :: string where
  "TAB = [CHR 0x09]"

subsection \<open>The halt procedure\<close>

text \<open>
  A call either returns a value or does not return. The only loop without an exit is
  the blink loop of \<^verbatim>\<open>error_blink\<close>; it is run on fuel, one unit per round of the
  \<^verbatim>\<open>while (true)\<close>, and \<open>NoReturn\<close> is the call still inside the loop when the fuel is
  used up.
\<close>

datatype 'a outcome = Returned 'a | NoReturn

text \<open>The inner loop \<^verbatim>\<open>for (uint8_t i {}; i < n; ++i)\<close>.\<close>

function blink_pulses :: "u8 \<Rightarrow> u8 \<Rightarrow> u8 \<Rightarrow> machine \<Rightarrow> machine" where
  "blink_pulses i n pin s =
     (if i < n then
        blink_pulses (i + 1) n pin
          (call (DelayMs 300) (call (DigitalWriteFast pin False)
            (call (DelayMs 300) (call (DigitalWriteFast pin True) s))))
      else s)"
  by pat_completeness auto
termination
proof (relation "measure (\<lambda>(i, n, pin, s). unat n - unat i)", goal_cases)
  case 1
  show ?case by simp
next
  case (2 i n pin s)
  then have "unat i < unat n" by (simp add: word_less_nat_alt)
  moreover have "unat n < 256" using unsigned_less [of n, where ?'a = nat] by simp
  ultimately have "unat (i + 1) = unat i + 1"
    by (simp add: unat_word_ariths)
  with \<open>unat i < unat n\<close> show ?case by simp
qed

declare blink_pulses.simps [simp del]

fun blink_loop :: "nat \<Rightarrow> u8 \<Rightarrow> u8 \<Rightarrow> machine \<Rightarrow> unit outcome \<times> machine" where
  "blink_loop 0 pin n s = (NoReturn, s)"
| "blink_loop (Suc fuel) pin n s =
     blink_loop fuel pin n (call (DelayMs 2000) (blink_pulses 0 n pin s))"

definition error_blink :: "nat \<Rightarrow> config \<Rightarrow> u8 \<Rightarrow> machine \<Rightarrow> unit outcome \<times> machine" where
  "error_blink fuel cfg n s =
     (let s1 = call TaskSuspendAll s;
          pin = debug_led_pin cfg;
          s2 = call (PinModeOutput pin) s1;
          s3 = call (SetArmClock 16000000) s2
      in blink_loop fuel pin n s3)"

definition vApplicationMallocFailedHook :: "nat \<Rightarrow> config \<Rightarrow> machine \<Rightarrow> unit outcome \<times> machine" where
  "vApplicationMallocFailedHook fuel cfg s = error_blink fuel cfg 2 s"

subsection \<open>The heap grower\<close>

record reent =
  errno :: int

definition ENOMEM :: int where
  "ENOMEM = 12"

text \<open>
  \<^verbatim>\<open>_sbrk_r\<close>. \<^verbatim>\<open>DEBUG\<close> is the constant \<^verbatim>\<open>false\<close>, so the debug prints are not part of the
  function. \<^verbatim>\<open>__disable_irq()\<close> sets \<^verbatim>\<open>PRIMASK\<close> to 1. The sums and the comparisons are
  those of \<^verbatim>\<open>uintptr_t\<close>: unsigned, modulo \<open>2 ^ 32\<close>. The first component of the result is
  the pointer returned, \<open>- 1\<close> being \<^verbatim>\<open>reinterpret_cast<void*>(-1)\<close>.
\<close>

definition sbrk_r :: "nat \<Rightarrow> config \<Rightarrow> machine \<Rightarrow> reent \<Rightarrow> u32 \<Rightarrow> u32 outcome \<times> machine \<times> reent" where
  "sbrk_r fuel cfg s p_reent incr =
     (let saved = primask s;
          s1 = s\<lparr>primask := 1\<rparr>;
          previous_heap_end = current_heap_end s1
      in if estack cfg - 8192 \<le> current_heap_end s1 + incr
            \<or> current_heap_end s1 + incr < ebss cfg
         then
           (let s2 = s1\<lparr>primask := saved\<rparr>;
                s3 = EXC_PRINTF (''_sbrk_r(%d): no mem available.'' @ CRLF) [incr] s2
            in if use_malloc_failed_hook cfg then
                 (case vApplicationMallocFailedHook fuel cfg s3 of
                    (Returned _, s4) \<Rightarrow> (Returned (- 1), s4, p_reent)
                  | (NoReturn, s4) \<Rightarrow> (NoReturn, s4, p_reent))
               else (Returned (- 1), s3, p_reent\<lparr>errno := ENOMEM\<rparr>))
         else
           (let s2 = s1\<lparr>current_heap_end := current_heap_end s1 + incr\<rparr>;
                s3 = s2\<lparr>primask := saved\<rparr>
            in (Returned previous_heap_end, s3, p_reent)))"

text \<open>
  Successive calls of \<^verbatim>\<open>_sbrk_r\<close> with the given increments: the result of every call,
  with the state it leaves. A call that does not return is the last one.
\<close>

fun sbrk_calls ::
  "nat \<Rightarrow> config \<Rightarrow> machine \<Rightarrow> reent \<Rightarrow> u32 list \<Rightarrow> (u32 outcome \<times> machine \<times> reent) list" where
  "sbrk_calls fuel cfg s r [] = []"
| "sbrk_calls fuel cfg s r (incr # incrs) =
     (case sbrk_r fuel cfg s r incr of
        (Returned p, s', r') \<Rightarrow> (Returned p, s', r') # sbrk_calls fuel cfg s' r' incrs
      | (NoReturn, s', r') \<Rightarrow> [(NoReturn, s', r')])"

subsection \<open>The wall clock\<close>

text \<open>
  \<^verbatim>\<open>timeval\<close> and the macros \<^verbatim>\<open>timercmp\<close>, \<^verbatim>\<open>timersub\<close> and \<^verbatim>\<open>timeradd\<close> of the C library's
  \<^verbatim>\<open><sys/time.h>\<close>. \<^verbatim>\<open>time_t\<close> is 64 bits wide in newlib 4 and the values below come from
  a 64-bit microsecond counter and a 32-bit seconds counter, so no field overflows and
  the fields are integers.
\<close>

record timeval =
  tv_sec :: int
  tv_usec :: int

definition timercmp_less :: "timeval \<Rightarrow> timeval \<Rightarrow> bool" where
  "timercmp_less tvp uvp =
     (if tv_sec tvp = tv_sec uvp then tv_usec tvp < tv_usec uvp else tv_sec tvp < tv_sec uvp)"

definition timersub :: "timeval \<Rightarrow> timeval \<Rightarrow> timeval" where
  "timersub tvp uvp =
     (let vvp = \<lparr>tv_sec = tv_sec tvp - tv_sec uvp, tv_usec = tv_usec tvp - tv_usec uvp\<rparr>
      in if tv_usec vvp < 0 then \<lparr>tv_sec = tv_sec vvp - 1, tv_usec = tv_usec vvp + 1000000\<rparr>
         else vvp)"

definition timeradd :: "timeval \<Rightarrow> timeval \<Rightarrow> timeval" where
  "timeradd tvp uvp =
     (let vvp = \<lparr>tv_sec = tv_sec tvp + tv_sec uvp, tv_usec = tv_usec tvp + tv_usec uvp\<rparr>
      in if 1000000 \<le> tv_usec vvp then \<lparr>tv_sec = tv_sec vvp + 1, tv_usec = tv_usec vvp - 1000000\<rparr>
         else vvp)"

record clock =
  offset :: timeval

definition timeval_of_us :: "u64 \<Rightarrow> timeval" where
  "timeval_of_us now_us =
     \<lparr>tv_sec = uint (now_us div 1000000), tv_usec = uint (now_us mod 1000000)\<rparr>"

text \<open>
  \<^verbatim>\<open>clock::sync_rtc\<close>; \<open>now_us\<close> is what \<^verbatim>\<open>freertos::get_us()\<close> returns and \<open>rtc_secs\<close> what
  \<^verbatim>\<open>rtc_get()\<close> returns inside the critical section.
\<close>

definition sync_rtc :: "u64 \<Rightarrow> u32 \<Rightarrow> clock \<Rightarrow> clock" where
  "sync_rtc now_us rtc_secs c =
     (let now = timeval_of_us now_us;
          rtc = \<lparr>tv_sec = uint rtc_secs, tv_usec = 0\<rparr>
      in if timercmp_less now rtc then c\<lparr>offset := timersub rtc now\<rparr>
         else c\<lparr>offset := timersub now rtc\<rparr>)"

text \<open>\<^verbatim>\<open>_gettimeofday\<close>: the time written to \<^verbatim>\<open>tv\<close> and the value returned.\<close>

definition gettimeofday :: "clock \<Rightarrow> u64 \<Rightarrow> timeval \<times> int" where
  "gettimeofday c now_us =
     (let p_offset = offset c;
          now = timeval_of_us now_us
      in (timeradd p_offset now, 0))"

subsection \<open>The frame walker\<close>

datatype Unwind_Reason_Code = URC_NO_REASON | URC_END_OF_STACK

text \<open>
  What the callback reads from and writes to an \<^verbatim>\<open>_Unwind_Context\<close>: the instruction
  pointer, the start of the region, and the core registers (\<open>gr ! 14\<close> is the link
  register).
\<close>

record unwind_context =
  ip :: u32
  region_start :: u32
  gr :: "u32 list"

definition Unwind_SetGR :: "unwind_context \<Rightarrow> nat \<Rightarrow> u32 \<Rightarrow> unwind_context" where
  "Unwind_SetGR ctx n v = ctx\<lparr>gr := (gr ctx)[n := v]\<rparr>"

text \<open>
  \<^verbatim>\<open>trace_fcn\<close>: the reason code returned, the context and the depth counter as the call
  leaves them, and the machine.
\<close>

definition trace_fcn ::
  "config \<Rightarrow> unwind_context \<Rightarrow> u32 \<Rightarrow> machine \<Rightarrow> Unwind_Reason_Code \<times> unwind_context \<times> u32 \<times> machine" where
  "trace_fcn cfg ctx depth s =
     (let s1 = EXC_PRINTF (TAB @ ''#%d'') [depth] s
      in if ip ctx = (prvTaskExitError cfg AND NOT 1) \<or> ip ctx = 0 then
           (URC_END_OF_STACK, ctx, depth, EXC_PRINTF ('':'' @ TAB @ ''[Task entry point]'' @ CRLF) [] s1)
         else
           (let s2 = EXC_PRINTF ('':'' @ TAB @ ''0x%04x'')
                       [if depth \<noteq> 0 then (ip ctx - 1) AND NOT 1 else ip ctx] s1;
                s3 = EXC_PRINTF ('' [0x%04x]'' @ CRLF) [region_start ctx] s2;
                ctx' = (if g_trace_lr s3 \<noteq> 0 then Unwind_SetGR ctx 14 (g_trace_lr s3) else ctx);
                s4 = (if g_trace_lr s3 \<noteq> 0 then s3\<lparr>g_trace_lr := 0\<rparr> else s3);
                depth' = depth + 1
            in if depth' = 32 then (URC_END_OF_STACK, ctx', depth', s4)
               else (URC_NO_REASON, ctx', depth', s4)))"

text \<open>
  The frame walk on a synthetic unwind sequence, following the contract of the
  platform's \<^verbatim>\<open>_Unwind_Backtrace\<close> (compiler runtime) towards its callback: it calls the
  callback on one frame after the other and stops as soon as the callback returns
  anything but \<^verbatim>\<open>_URC_NO_REASON\<close>, or when the frames are used up. The result lists, for
  every call made, the reason code and the context as the callback left it.
\<close>

fun unwind_backtrace ::
  "config \<Rightarrow> unwind_context list \<Rightarrow> u32 \<Rightarrow> machine \<Rightarrow>
   (Unwind_Reason_Code \<times> unwind_context) list \<times> u32 \<times> machine" where
  "unwind_backtrace cfg [] depth s = ([], depth, s)"
| "unwind_backtrace cfg (ctx # ctxs) depth s =
     (case trace_fcn cfg ctx depth s of
        (code, ctx', depth', s') \<Rightarrow>
          if code = URC_NO_REASON then
            (case unwind_backtrace cfg ctxs depth' s' of
               (visited, d, t) \<Rightarrow> ((code, ctx') # visited, d, t))
          else ([(code, ctx')], depth', s'))"

text \<open>
  The frames at which the walk ends by itself: the instruction pointer is the address of
  \<^verbatim>\<open>prvTaskExitError\<close> with the thumb bit cleared, or zero. This is the condition tested in
  \<^verbatim>\<open>trace_fcn\<close>.
\<close>

definition task_entry :: "config \<Rightarrow> unwind_context \<Rightarrow> bool" where
  "task_entry cfg ctx = (ip ctx = (prvTaskExitError cfg AND NOT 1) \<or> ip ctx = 0)"

text \<open>The number of lines in a text sent to the serial port: its line feeds.\<close>

definition frame_lines :: "string \<Rightarrow> nat" where
  "frame_lines text = count_list text (CHR 0x0A)"

subsection \<open>The scheduler bridge\<close>

datatype scheduler_state = taskSCHEDULER_NOT_STARTED | taskSCHEDULER_RUNNING | taskSCHEDULER_SUSPENDED

text \<open>The calls into the scheduler, recorded in the order they are made.\<close>

datatype rtos_call =
    xTaskNotify u32
  | xTaskNotifyFromISR u32
  | portYIELD_FROM_ISR
  | portDATA_SYNC_BARRIER
  | freertos_yield

text \<open>
  A task handle is a pointer; the null handle is 0. \<open>xTaskGetSchedulerState\<close> and
  \<open>xPortIsInsideInterrupt\<close> are what the scheduler's functions of these names return.
\<close>

record bridge =
  g_yield_task :: u32
  g_event_responder_task :: u32
  xTaskGetSchedulerState :: scheduler_state
  xPortIsInsideInterrupt :: bool
  rtos_calls :: "rtos_call list"

definition rtos :: "rtos_call \<Rightarrow> bridge \<Rightarrow> bridge" where
  "rtos c b = b\<lparr>rtos_calls := rtos_calls b @ [c]\<rparr>"

definition event_responder_set_pend_sv :: "bridge \<Rightarrow> bridge" where
  "event_responder_set_pend_sv b =
     (if g_event_responder_task b \<noteq> 0 then rtos (xTaskNotify (g_event_responder_task b)) b
      else b)"

definition yield :: "bridge \<Rightarrow> bridge" where
  "yield b =
     (if xTaskGetSchedulerState b \<noteq> taskSCHEDULER_NOT_STARTED \<and> g_yield_task b \<noteq> 0 then
        (if xPortIsInsideInterrupt b then
           rtos portDATA_SYNC_BARRIER
             (rtos portYIELD_FROM_ISR (rtos (xTaskNotifyFromISR (g_yield_task b)) b))
         else rtos (xTaskNotify (g_yield_task b)) b)
      else rtos freertos_yield b)"


subsection \<open>A concrete layout\<close>

text \<open>
  A layout of the kind the linker script of a Teensy 4 produces (\<^verbatim>\<open>_ebss\<close> and \<^verbatim>\<open>_estack\<close>
  in the tightly coupled data memory at \<open>0x20000000\<close>), with the hook option as a
  parameter, and a memory that holds no text. They serve as concrete inputs.
\<close>

definition example_config :: "bool \<Rightarrow> config" where
  "example_config hook =
     \<lparr>ebss = 0x20004000, estack = 0x20078000, prvTaskExitError = 0x00003A51,
      use_malloc_failed_hook = hook, debug_led_pin = 13\<rparr>"

definition no_strings :: "u32 \<Rightarrow> string" where
  "no_strings a = []"

text \<open>A frame at a given address, with 16 cleared core registers, as a concrete input.\<close>

definition frame_at :: "u32 \<Rightarrow> unwind_context" where
  "frame_at pc = \<lparr>ip = pc, region_start = pc, gr = replicate 16 0\<rparr>"

section \<open>Properties\<close>

subsection \<open>Diagnostic formatter\<close>

text \<open>One round of the loop of \<^verbatim>\<open>exc_printf\<close>, for the end of the format and for plain text.\<close>

lemma exc_printf_end: "exc_printf mem [] args = Some []"
  by (subst exc_printf.simps) (simp add: cur_def)

lemma exc_printf_literal:
  "c \<noteq> NUL \<Longrightarrow> c \<noteq> CHR ''%'' \<Longrightarrow>
   exc_printf mem (c # f) args = then_print (Some [c]) (exc_printf mem f args)"
  by (subst exc_printf.simps) (simp add: cur_def)

lemma exc_printf_percent:
  "exc_printf mem (CHR ''%'' # CHR ''%'' # f) args = then_print (Some ''%'') (exc_printf mem f args)"
  by (subst exc_printf.simps) (simp add: cur_def NUL_def)

lemma exc_printf_text:
  "\<forall>c \<in> set s. c \<noteq> NUL \<and> c \<noteq> CHR ''%'' \<Longrightarrow> exc_printf mem s args = Some s"
  by (induction s) (simp_all add: exc_printf_end exc_printf_literal then_print_def)

lemma is_digit_not_special: "is_digit c \<Longrightarrow> c \<noteq> NUL \<and> c \<noteq> CHR ''%''"
  by (auto simp: is_digit_def NUL_def)

lemma is_digit_char_of: "(n :: nat) < 10 \<Longrightarrow> is_digit (char_of (n + 48))"
  by (simp add: is_digit_def)

lemma puint_digits_are_digits:
  "\<forall>c \<in> set buf. is_digit c \<Longrightarrow> \<forall>c \<in> set (puint_digits num buf). is_digit c"
proof (induction num buf rule: puint_digits.induct)
  case (1 num buf)
  have "unat (num mod 10) < 10" by (simp add: unat_mod)
  then have d: "is_digit (char_of (unat (num mod 10) + 48))" by (rule is_digit_char_of)
  show ?case
  proof (cases "num div 10 = 0")
    case True
    with d "1.prems" show ?thesis by (subst puint_digits.simps) (simp add: Let_def)
  next
    case False
    have "\<forall>c \<in> set (puint_digits (num div 10) (char_of (unat (num mod 10) + 48) # buf)). is_digit c"
      using False d "1.prems" by (intro "1.IH") simp_all
    with False show ?thesis by (subst puint_digits.simps) (simp add: Let_def)
  qed
qed

lemma exc_puint_digits: "exc_puint mem num = Some (puint_digits num [])"
proof -
  have "\<forall>c \<in> set (puint_digits num []). is_digit c"
    by (rule puint_digits_are_digits) simp
  then have "\<forall>c \<in> set (puint_digits num []). c \<noteq> NUL \<and> c \<noteq> CHR ''%''"
    using is_digit_not_special by blast
  then show ?thesis by (simp add: exc_puint.simps exc_printf_text)
qed

text \<open>
  The optional \<open>-\<close>, the digits and the optional \<open>l\<close> after a \<open>%\<close> are passed over: two
  formats that agree from the conversion letter on print the same.
\<close>

lemma cur_Cons: "cur (c # f) = c"
  by (simp add: cur_def)

lemma directive_cong:
  assumes "cur f1 \<noteq> CHR ''%''" and "cur g1 \<noteq> CHR ''%''"
    and "(if cur (dropWhile is_digit (if cur f1 = CHR ''-'' then tl f1 else f1)) = CHR ''l''
          then tl (dropWhile is_digit (if cur f1 = CHR ''-'' then tl f1 else f1))
          else dropWhile is_digit (if cur f1 = CHR ''-'' then tl f1 else f1))
       = (if cur (dropWhile is_digit (if cur g1 = CHR ''-'' then tl g1 else g1)) = CHR ''l''
          then tl (dropWhile is_digit (if cur g1 = CHR ''-'' then tl g1 else g1))
          else dropWhile is_digit (if cur g1 = CHR ''-'' then tl g1 else g1))"
  shows "exc_printf mem (CHR ''%'' # f1) args = exc_printf mem (CHR ''%'' # g1) args"
  using assms exc_printf.simps [of mem "CHR ''%'' # f1" args]
    exc_printf.simps [of mem "CHR ''%'' # g1" args]
  by (simp add: cur_Cons NUL_def Let_def split del: if_split cong: if_cong list.case_cong)

lemma exc_printf_modifiers:
  assumes m: "dash = [] \<or> dash = ''-''"
    and w: "\<forall>c \<in> set width. is_digit c"
    and l: "long = [] \<or> long = ''l''"
    and c: "conv \<in> set ''sduxXc''"
  shows "exc_printf mem (CHR ''%'' # dash @ width @ long @ conv # rest) args
           = exc_printf mem (CHR ''%'' # conv # rest) args"
proof -
  let ?g = "long @ conv # rest"
  let ?w = "width @ ?g"
  have conv: "conv \<noteq> CHR ''%''" "conv \<noteq> CHR ''-''" "\<not> is_digit conv" "conv \<noteq> CHR ''l''"
    using c by (auto simp: is_digit_def)
  have g: "cur ?g \<noteq> CHR ''%''" "cur ?g \<noteq> CHR ''-''" "\<not> is_digit (cur ?g)" "?g \<noteq> []"
    using l conv by (auto simp: cur_def is_digit_def)
  have wd: "cur ?w \<noteq> CHR ''%'' \<and> cur ?w \<noteq> CHR ''-''"
  proof (cases width)
    case Nil
    with g show ?thesis by simp
  next
    case (Cons d ds)
    with w have "is_digit d" by simp
    then show ?thesis using Cons by (auto simp: cur_Cons is_digit_def)
  qed
  have "dropWhile is_digit ?g = ?g"
    using g by (cases ?g) (auto simp: cur_Cons)
  with w have dw: "dropWhile is_digit ?w = ?g"
    by (simp add: dropWhile_append)
  have f4: "(if cur ?g = CHR ''l'' then tl ?g else ?g) = conv # rest"
    using l conv by (auto simp: cur_Cons)
  have hd1: "cur (dash @ ?w) \<noteq> CHR ''%''"
    using m wd by (auto simp: cur_Cons)
  have f2: "(if cur (dash @ ?w) = CHR ''-'' then tl (dash @ ?w) else dash @ ?w) = ?w"
    using m wd by (auto simp: cur_Cons)
  have r2: "(if cur (conv # rest) = CHR ''-'' then tl (conv # rest) else conv # rest) = conv # rest"
    using conv by (simp add: cur_Cons)
  have r3: "dropWhile is_digit (conv # rest) = conv # rest"
    using conv by simp
  have r4: "(if cur (conv # rest) = CHR ''l'' then tl (conv # rest) else conv # rest) = conv # rest"
    using conv by (simp add: cur_Cons)
  show ?thesis
  proof (rule directive_cong)
    show "cur (dash @ ?w) \<noteq> CHR ''%''" by (rule hd1)
    show "cur (conv # rest) \<noteq> CHR ''%''" using conv by (simp add: cur_Cons)
    show "(if cur (dropWhile is_digit
                (if cur (dash @ ?w) = CHR ''-'' then tl (dash @ ?w) else dash @ ?w)) = CHR ''l''
          then tl (dropWhile is_digit
                (if cur (dash @ ?w) = CHR ''-'' then tl (dash @ ?w) else dash @ ?w))
          else dropWhile is_digit
                (if cur (dash @ ?w) = CHR ''-'' then tl (dash @ ?w) else dash @ ?w))
       = (if cur (dropWhile is_digit
                (if cur (conv # rest) = CHR ''-'' then tl (conv # rest) else conv # rest)) = CHR ''l''
          then tl (dropWhile is_digit
                (if cur (conv # rest) = CHR ''-'' then tl (conv # rest) else conv # rest))
          else dropWhile is_digit
                (if cur (conv # rest) = CHR ''-'' then tl (conv # rest) else conv # rest))"
      unfolding f2 dw f4 r2 r3 r4 by (rule refl)
  qed
qed

text \<open>
  Claim C6, amended in its last part: the conversions print as listed, and what is
  skipped between \<open>%\<close> and the conversion letter is an optional \<open>-\<close>, then decimal
  digits (the width), then at most one \<open>l\<close>. A precision or another length modifier is
  not skipped. The argument of \<^verbatim>\<open>%s\<close> is the address \<open>p\<close> of the text.
\<close>

theorem formatter_conversions:
  "exc_printf mem ''%d'' [- 42] = Some ''-42''
   \<and> exc_printf mem ''%u'' [4294967295] = Some ''4294967295''
   \<and> exc_printf mem ''%x'' [1] = Some ''00000001''
   \<and> exc_printf (mem(p := ''ok'')) ''%s'' [p] = Some ''ok''
   \<and> exc_printf mem ''%c'' [c] = Some [char_of (unat c)]
   \<and> exc_printf mem ''%%'' [] = Some ''%''
   \<and> exc_printf mem ''%5ld'' [n] = exc_printf mem ''%d'' [n]
   \<and> ((dash = [] \<or> dash = ''-'') \<and> (\<forall>c \<in> set width. is_digit c) \<and> (long = [] \<or> long = ''l'')
        \<and> conv \<in> set ''sduxXc''
       \<longrightarrow> exc_printf mem (CHR ''%'' # dash @ width @ long @ conv # rest) args
           = exc_printf mem (CHR ''%'' # conv # rest) args)"
proof (intro conjI impI)
  show "exc_printf mem ''%d'' [- 42] = Some ''-42''" by code_simp
  show "exc_printf mem ''%u'' [4294967295] = Some ''4294967295''" by code_simp
  show "exc_printf mem ''%x'' [1] = Some ''00000001''" by code_simp
  show "exc_printf (mem(p := ''ok'')) ''%s'' [p] = Some ''ok''"
    by (subst exc_printf.simps)
       (simp add: cur_def NUL_def is_digit_def then_print_def exc_printf_end exc_printf_literal)
  show "exc_printf mem ''%c'' [c] = Some [char_of (unat c)]"
    by (subst exc_printf.simps)
       (simp add: cur_def NUL_def is_digit_def then_print_def exc_printf_end)
  show "exc_printf mem ''%%'' [] = Some ''%''"
    by (simp add: exc_printf_percent exc_printf_end then_print_def)
  show "exc_printf mem ''%5ld'' [n] = exc_printf mem ''%d'' [n]"
    using exc_printf_modifiers [of "[]" "''5''" "''l''" "CHR ''d''" mem "[]" "[n]"]
    by (simp add: is_digit_def)
next
  assume "(dash = [] \<or> dash = ''-'') \<and> (\<forall>c \<in> set width. is_digit c) \<and> (long = [] \<or> long = ''l'')
        \<and> conv \<in> set ''sduxXc''"
  then show "exc_printf mem (CHR ''%'' # dash @ width @ long @ conv # rest) args
           = exc_printf mem (CHR ''%'' # conv # rest) args"
    by (intro exc_printf_modifiers) blast+
qed

text \<open>An instance of the last part: \<^verbatim>\<open>%-08lX\<close> prints what \<^verbatim>\<open>%X\<close> prints.\<close>

theorem formatter_conversions_witness:
  "(''-'' = [] \<or> ''-'' = ''-'') \<and> is_digit CHR ''0'' \<and> is_digit CHR ''8'' \<and> (''l'' = [] \<or> ''l'' = ''l'')
   \<and> CHR ''X'' \<in> set ''sduxXc''
   \<and> exc_printf no_strings ''%-08lX!'' [0xBEEF] = Some ''0000BEEF!''
   \<and> exc_printf no_strings ''%X!'' [0xBEEF] = Some ''0000BEEF!''"
proof -
  have h: "(''-'' = [] \<or> ''-'' = ''-'') \<and> (\<forall>c \<in> set ''08''. is_digit c) \<and> (''l'' = [] \<or> ''l'' = ''l'')
        \<and> CHR ''X'' \<in> set ''sduxXc''"
    by (simp add: is_digit_def)
  have plain: "exc_printf no_strings ''%X!'' [0xBEEF] = Some ''0000BEEF!''"
    by code_simp
  from formatter_conversions [of no_strings 0 0 0 "''-''" "''08''" "''l''" "CHR ''X''" "''!''" "[0xBEEF]"]
  have "(''-'' = [] \<or> ''-'' = ''-'') \<and> (\<forall>c \<in> set ''08''. is_digit c) \<and> (''l'' = [] \<or> ''l'' = ''l'')
        \<and> CHR ''X'' \<in> set ''sduxXc''
       \<longrightarrow> exc_printf no_strings (CHR ''%'' # ''-'' @ ''08'' @ ''l'' @ CHR ''X'' # ''!'') [0xBEEF]
           = exc_printf no_strings (CHR ''%'' # CHR ''X'' # ''!'') [0xBEEF]"
    by blast
  with h have "exc_printf no_strings (CHR ''%'' # ''-'' @ ''08'' @ ''l'' @ CHR ''X'' # ''!'') [0xBEEF]
           = exc_printf no_strings (CHR ''%'' # CHR ''X'' # ''!'') [0xBEEF]"
    by blast
  then have "exc_printf no_strings ''%-08lX!'' [0xBEEF] = Some ''0000BEEF!''"
    using plain by simp
  with h plain show ?thesis by simp
qed

text \<open>
  The claim as stated, for any width, precision or length modifier, fails for a
  precision and for the length modifier \<^verbatim>\<open>ll\<close>: \<^verbatim>\<open>%.3d\<close> with 7 prints \<open>3d\<close> (the dot is
  taken as the conversion letter, and the rest is plain text) where \<^verbatim>\<open>%d\<close> prints \<open>7\<close>,
  and \<^verbatim>\<open>%lld\<close> prints \<open>d\<close>.
\<close>

theorem formatter_precision_stray_output:
  "exc_printf no_strings ''%.3d'' [7] = Some ''3d''
   \<and> exc_printf no_strings ''%d'' [7] = Some ''7''
   \<and> exc_printf no_strings ''%lld'' [7] = Some ''d''"
  by code_simp

text \<open>The \<^verbatim>\<open>%x\<close> loop prints the eight nibbles from the most significant one down.\<close>

lemma nibble:
  assumes "k \<le> 7"
  shows "drop_bit 28 (push_bit (4 * k) (v :: u32)) AND 15 = drop_bit (28 - 4 * k) v AND 15"
proof -
  have m: "(15 :: u32) = mask 4" by (simp add: mask_eq_exp_minus_1)
  show ?thesis unfolding m
    by (rule bit_word_eqI) (use assms in \<open>auto simp: bit_simps\<close>)
qed

lemma hex_digit_char:
  assumes "d \<le> (15 :: u32)"
  shows "char_of (if d < 10 then unat d + 48 else unat d - 10 + 65) = hex_upper d"
proof -
  have "unat d \<le> 15" using assms by (simp add: word_le_nat_alt)
  then have "unat d = 0 \<or> unat d = 1 \<or> unat d = 2 \<or> unat d = 3 \<or> unat d = 4 \<or> unat d = 5
      \<or> unat d = 6 \<or> unat d = 7 \<or> unat d = 8 \<or> unat d = 9 \<or> unat d = 10 \<or> unat d = 11
      \<or> unat d = 12 \<or> unat d = 13 \<or> unat d = 14 \<or> unat d = 15"
    by arith
  moreover have "d < 10 \<longleftrightarrow> unat d < 10" by (simp add: word_less_nat_alt)
  ultimately show ?thesis
    by (elim disjE) (simp_all add: hex_upper_def char_of_eq_iff)
qed

lemma hex_upper_range: "d \<le> (15 :: u32) \<Longrightarrow> hex_upper d \<in> set ''0123456789ABCDEF''"
proof -
  assume "d \<le> 15"
  then have "unat d < length ''0123456789ABCDEF''" by (simp add: word_le_nat_alt)
  then show ?thesis unfolding hex_upper_def by (rule nth_mem)
qed

lemma and_15_le: "(x :: u32) AND 15 \<le> 15"
  by (rule word_and_le1)

lemma hex_digits_nibbles:
  "j + n \<le> 8 \<Longrightarrow>
   hex_digits n (push_bit (4 * j) val)
     = map (\<lambda>k. hex_upper (drop_bit (28 - 4 * k) val AND 15)) [j..<j + n]"
proof (induction n arbitrary: j)
  case 0
  show ?case by simp
next
  case (Suc n)
  then have j: "j \<le> 7" by simp
  have shift: "push_bit 4 (push_bit (4 * j) val) = push_bit (4 * Suc j) val"
    by (simp add: push_bit_push_bit add.commute)
  have "hex_digits n (push_bit (4 * Suc j) val)
     = map (\<lambda>k. hex_upper (drop_bit (28 - 4 * k) val AND 15)) [Suc j..<Suc j + n]"
    using Suc.prems by (intro Suc.IH) simp
  then show ?case
    by (simp add: Let_def shift nibble [OF j] hex_digit_char [OF and_15_le] upt_conv_Cons
        del: upt_Suc)
qed

text \<open>
  Claim C10: for every value, \<^verbatim>\<open>%x\<close> and \<^verbatim>\<open>%X\<close> print the same eight characters, the
  upper-case hexadecimal digits of the eight nibbles of the value, most significant
  first; no lower-case letter is printed.
\<close>

theorem hex_conversion_upper_case:
  "exc_printf mem ''%x'' [val]
     = Some (map (\<lambda>k. hex_upper (drop_bit (28 - 4 * k) val AND 15)) [0..<8])
   \<and> exc_printf mem ''%X'' [val] = exc_printf mem ''%x'' [val]
   \<and> length (hex_digits 8 val) = 8
   \<and> set (hex_digits 8 val) \<subseteq> set ''0123456789ABCDEF''"
proof -
  have x: "exc_printf mem ''%x'' [val] = Some (hex_digits 8 val)"
    by (subst exc_printf.simps)
       (simp add: cur_def NUL_def is_digit_def then_print_def exc_printf_end del: hex_digits.simps)
  have X: "exc_printf mem ''%X'' [val] = Some (hex_digits 8 val)"
    by (subst exc_printf.simps)
       (simp add: cur_def NUL_def is_digit_def then_print_def exc_printf_end del: hex_digits.simps)
  have n: "hex_digits 8 val = map (\<lambda>k. hex_upper (drop_bit (28 - 4 * k) val AND 15)) [0..<8]"
    using hex_digits_nibbles [of 0 8 val] by simp
  have "set (map (\<lambda>k. hex_upper (drop_bit (28 - 4 * k) val AND 15)) [0..<8])
          \<subseteq> set ''0123456789ABCDEF''"
    using hex_upper_range [OF and_15_le] by (auto simp del: upt_Suc set_upt)
  with x X n show ?thesis by (simp del: hex_digits.simps upt_Suc)
qed


text \<open>
  What the print sites of this file send: every one passes the arguments its format
  consumes, and the decimal and hexadecimal digits contain no line feed.
\<close>

lemma exc_printf_d:
  "exc_printf mem (CHR ''%'' # CHR ''d'' # f) (n # rest)
     = then_print (Some (if n <s 0 then CHR ''-'' # puint_digits (- n) [] else puint_digits n []))
         (exc_printf mem f rest)"
  by (subst exc_printf.simps)
     (simp add: cur_def NUL_def is_digit_def then_print_def exc_puint_digits)

lemma exc_printf_x:
  "exc_printf mem (CHR ''%'' # CHR ''x'' # f) (v # rest)
     = then_print (Some (hex_digits 8 v)) (exc_printf mem f rest)"
  by (subst exc_printf.simps)
     (simp add: cur_def NUL_def is_digit_def del: hex_digits.simps)

lemma exc_printf_04x:
  "exc_printf mem (CHR ''%'' # CHR ''0'' # CHR ''4'' # CHR ''x'' # f) (v # rest)
     = then_print (Some (hex_digits 8 v)) (exc_printf mem f rest)"
  using exc_printf_modifiers [of "[]" "''04''" "[]" "CHR ''x''" mem f "v # rest"]
  by (simp add: is_digit_def exc_printf_x del: hex_digits.simps)

lemma no_LF_digits: "CHR 0x0A \<notin> set (puint_digits n [])"
proof -
  have "\<forall>c \<in> set (puint_digits n []). is_digit c"
    by (rule puint_digits_are_digits) simp
  moreover have "\<not> is_digit (CHR 0x0A)" by (simp add: is_digit_def)
  ultimately show ?thesis by blast
qed

lemma hex_digits_chars: "set (hex_digits 8 v) \<subseteq> set ''0123456789ABCDEF''"
proof -
  have "hex_digits 8 v = map (\<lambda>k. hex_upper (drop_bit (28 - 4 * k) v AND 15)) [0..<8]"
    using hex_digits_nibbles [of 0 8 v] by simp
  moreover have "set (map (\<lambda>k. hex_upper (drop_bit (28 - 4 * k) v AND 15)) [0..<8])
          \<subseteq> set ''0123456789ABCDEF''"
    using hex_upper_range [OF and_15_le] by (auto simp del: upt_Suc set_upt)
  ultimately show ?thesis by (simp del: hex_digits.simps upt_Suc)
qed

lemma no_LF_hex: "CHR 0x0A \<notin> set (hex_digits 8 v)"
  using hex_digits_chars [of v] by auto

lemma print_depth:
  "exc_printf mem (TAB @ ''#%d'') [depth]
     = Some (TAB @ ''#'' @ (if depth <s 0 then CHR ''-'' # puint_digits (- depth) [] else puint_digits depth []))"
  by (simp add: TAB_def exc_printf_literal exc_printf_d exc_printf_end then_print_def NUL_def)

lemma print_entry:
  "exc_printf mem ('':'' @ TAB @ ''[Task entry point]'' @ CRLF) [] = Some ('':'' @ TAB @ ''[Task entry point]'' @ CRLF)"
  by (rule exc_printf_text) (simp add: TAB_def CRLF_def NUL_def)

lemma print_ip:
  "exc_printf mem ('':'' @ TAB @ ''0x%04x'') [v] = Some ('':'' @ TAB @ ''0x'' @ hex_digits 8 v)"
  by (simp add: TAB_def exc_printf_literal exc_printf_04x exc_printf_end then_print_def NUL_def
      del: hex_digits.simps)

lemma print_start:
  "exc_printf mem ('' [0x%04x]'' @ CRLF) [v] = Some ('' [0x'' @ hex_digits 8 v @ '']'' @ CRLF)"
  by (simp add: CRLF_def exc_printf_literal exc_printf_04x exc_printf_end then_print_def NUL_def
      del: hex_digits.simps)


lemma print_no_mem:
  "exc_printf mem (''_sbrk_r(%d): no mem available.'' @ CRLF) [incr]
     = Some (''_sbrk_r('' @ (if incr <s 0 then CHR ''-'' # puint_digits (- incr) [] else puint_digits incr [])
              @ ''): no mem available.'' @ CRLF)"
  by (simp add: CRLF_def exc_printf_literal exc_printf_d exc_printf_end then_print_def NUL_def)

lemmas EXC_PRINTF_sites = print_no_mem print_depth print_entry print_ip print_start

subsection \<open>Heap grower\<close>

text \<open>What the print path and the board calls leave unchanged.\<close>

lemma EXC_PRINTF_frame:
  "current_heap_end (EXC_PRINTF f a s) = current_heap_end s"
  "primask (EXC_PRINTF f a s) = primask s"
  "g_trace_lr (EXC_PRINTF f a s) = g_trace_lr s"
  "hw_calls (EXC_PRINTF f a s) = hw_calls s"
  "cstr (EXC_PRINTF f a s) = cstr s"
  by (simp_all add: EXC_PRINTF_def split: option.splits)

lemma call_frame:
  "current_heap_end (call c s) = current_heap_end s"
  "primask (call c s) = primask s"
  "serial (call c s) = serial s"
  "hw_calls (call c s) = hw_calls s @ [c]"
  by (simp_all add: call_def)

lemma blink_pulses_heap: "current_heap_end (blink_pulses i n pin s) = current_heap_end s"
  by (induction i n pin s rule: blink_pulses.induct)
     (subst blink_pulses.simps, simp add: call_frame)

lemma blink_pulses_calls: "\<exists>cs. hw_calls (blink_pulses i n pin s) = hw_calls s @ cs"
proof (induction i n pin s rule: blink_pulses.induct)
  case (1 i n pin s)
  show ?case
  proof (cases "i < n")
    case True
    from 1 [OF True] show ?thesis
      by (subst blink_pulses.simps) (auto simp: True call_frame)
  next
    case False
    then show ?thesis by (subst blink_pulses.simps) simp
  qed
qed

lemma blink_loop_no_return: "fst (blink_loop fuel pin n s) = NoReturn"
  by (induction fuel arbitrary: s) simp_all

lemma blink_loop_heap: "current_heap_end (snd (blink_loop fuel pin n s)) = current_heap_end s"
  by (induction fuel arbitrary: s) (simp_all add: call_frame blink_pulses_heap)

lemma blink_loop_calls: "\<exists>cs. hw_calls (snd (blink_loop fuel pin n s)) = hw_calls s @ cs"
proof (induction fuel arbitrary: s)
  case 0
  show ?case by simp
next
  case (Suc fuel)
  obtain cs where a: "hw_calls (blink_pulses 0 n pin s) = hw_calls s @ cs"
    using blink_pulses_calls by blast
  obtain ds where "hw_calls (snd (blink_loop fuel pin n (call (DelayMs 2000) (blink_pulses 0 n pin s))))
      = hw_calls (call (DelayMs 2000) (blink_pulses 0 n pin s)) @ ds"
    using Suc by blast
  with a show ?case by (simp add: call_frame)
qed

lemma error_blink_no_return: "fst (error_blink fuel cfg n s) = NoReturn"
  by (simp add: error_blink_def Let_def blink_loop_no_return)

lemma error_blink_heap: "current_heap_end (snd (error_blink fuel cfg n s)) = current_heap_end s"
  by (simp add: error_blink_def Let_def blink_loop_heap call_frame)

lemma error_blink_calls:
  "\<exists>cs. hw_calls (snd (error_blink fuel cfg n s))
     = hw_calls s @ [TaskSuspendAll, PinModeOutput (debug_led_pin cfg), SetArmClock 16000000] @ cs"
proof -
  obtain cs where "hw_calls (snd (blink_loop fuel (debug_led_pin cfg) n
      (call (SetArmClock 16000000) (call (PinModeOutput (debug_led_pin cfg)) (call TaskSuspendAll s)))))
     = hw_calls (call (SetArmClock 16000000) (call (PinModeOutput (debug_led_pin cfg)) (call TaskSuspendAll s))) @ cs"
    using blink_loop_calls by blast
  then show ?thesis by (simp add: error_blink_def Let_def call_frame)
qed

lemma hook_no_return: "fst (vApplicationMallocFailedHook fuel cfg s) = NoReturn"
  by (simp add: vApplicationMallocFailedHook_def error_blink_no_return)

lemma hook_heap: "current_heap_end (snd (vApplicationMallocFailedHook fuel cfg s)) = current_heap_end s"
  by (simp add: vApplicationMallocFailedHook_def error_blink_heap)

lemma sbrk_r_rejected_hook:
  assumes "estack cfg - 8192 \<le> current_heap_end s + incr \<or> current_heap_end s + incr < ebss cfg"
    and "use_malloc_failed_hook cfg"
  shows "sbrk_r fuel cfg s r incr =
           (NoReturn,
            snd (vApplicationMallocFailedHook fuel cfg
                  (EXC_PRINTF (''_sbrk_r(%d): no mem available.'' @ CRLF) [incr] s)),
            r)"
proof -
  let ?s3 = "EXC_PRINTF (''_sbrk_r(%d): no mem available.'' @ CRLF) [incr] (s\<lparr>primask := 1, primask := primask s\<rparr>)"
  obtain res s4 where h: "vApplicationMallocFailedHook fuel cfg ?s3 = (res, s4)"
    by (cases "vApplicationMallocFailedHook fuel cfg ?s3")
  then have "res = NoReturn" using hook_no_return [of fuel cfg ?s3] by simp
  with h assms show ?thesis
    by (simp add: sbrk_r_def Let_def del: append.simps)
qed

lemma sbrk_r_rejected_plain:
  assumes "estack cfg - 8192 \<le> current_heap_end s + incr \<or> current_heap_end s + incr < ebss cfg"
    and "\<not> use_malloc_failed_hook cfg"
  shows "sbrk_r fuel cfg s r incr =
           (Returned (- 1),
            EXC_PRINTF (''_sbrk_r(%d): no mem available.'' @ CRLF) [incr] s,
            r\<lparr>errno := ENOMEM\<rparr>)"
  using assms by (simp add: sbrk_r_def Let_def)

lemma sbrk_r_accepted:
  assumes "\<not> (estack cfg - 8192 \<le> current_heap_end s + incr \<or> current_heap_end s + incr < ebss cfg)"
  shows "sbrk_r fuel cfg s r incr =
           (Returned (current_heap_end s), s\<lparr>current_heap_end := current_heap_end s + incr\<rparr>, r)"
  using assms by (simp add: sbrk_r_def Let_def)


lemma sbrk_r_invariant:
  assumes "ebss cfg \<le> current_heap_end s" "current_heap_end s < estack cfg - 8192"
  shows "ebss cfg \<le> current_heap_end (fst (snd (sbrk_r fuel cfg s r incr)))
         \<and> current_heap_end (fst (snd (sbrk_r fuel cfg s r incr))) < estack cfg - 8192"
proof (cases "estack cfg - 8192 \<le> current_heap_end s + incr \<or> current_heap_end s + incr < ebss cfg")
  case True
  show ?thesis
  proof (cases "use_malloc_failed_hook cfg")
    case True
    with \<open>_ \<or> _\<close> assms show ?thesis
      by (simp add: sbrk_r_rejected_hook hook_heap EXC_PRINTF_frame del: append.simps)
  next
    case False
    with \<open>_ \<or> _\<close> assms show ?thesis
      by (simp add: sbrk_r_rejected_plain EXC_PRINTF_frame del: append.simps)
  qed
next
  case False
  then show ?thesis by (simp add: sbrk_r_accepted not_le not_less)
qed

lemma sbrk_calls_invariant:
  assumes "ebss cfg \<le> current_heap_end s" "current_heap_end s < estack cfg - 8192"
  shows "\<forall>x \<in> set (sbrk_calls fuel cfg s r incrs).
           ebss cfg \<le> current_heap_end (fst (snd x)) \<and> current_heap_end (fst (snd x)) < estack cfg - 8192"
  using assms
proof (induction incrs arbitrary: s r)
  case Nil
  show ?case by simp
next
  case (Cons incr incrs)
  obtain res s' r' where step: "sbrk_r fuel cfg s r incr = (res, s', r')"
    by (cases "sbrk_r fuel cfg s r incr")
  from sbrk_r_invariant [OF Cons.prems, of fuel r incr] step
  have inv: "ebss cfg \<le> current_heap_end s'" "current_heap_end s' < estack cfg - 8192"
    by simp_all
  show ?case
  proof (cases res)
    case (Returned p)
    with step inv Cons.IH [OF inv, of r'] show ?thesis by simp
  next
    case NoReturn
    with step inv show ?thesis by simp
  qed
qed

lemma sbrk_r_rejected:
  assumes "estack cfg - 8192 \<le> current_heap_end s + incr \<or> current_heap_end s + incr < ebss cfg"
  shows "current_heap_end (fst (snd (sbrk_r fuel cfg s r incr))) = current_heap_end s"
    and "fst (sbrk_r fuel cfg s r incr) = (if use_malloc_failed_hook cfg then NoReturn else Returned (- 1))"
  using assms
  by (cases "use_malloc_failed_hook cfg";
      simp add: sbrk_r_rejected_hook sbrk_r_rejected_plain hook_heap EXC_PRINTF_frame del: append.simps)+

text \<open>
  Claim C2, amended: the lower bound the code checks is \<^verbatim>\<open>_ebss\<close>, not the initial boundary
  \<^verbatim>\<open>_ebss + 32\<close>, and the upper bound is strict. When the initial boundary lies in the
  region, \<open>_ebss \<le> current_heap_end < _estack - 8192\<close> holds after every call of every
  sequence of calls, whatever the increments (negative ones are the words from
  \<open>2 ^ 31\<close> on); and from any state, a request whose projected boundary (modulo \<open>2 ^ 32\<close>)
  is outside this range is rejected (the sentinel, or no return when the hook is
  configured) and leaves \<^verbatim>\<open>current_heap_end\<close> as it was.
\<close>

theorem heap_bounds_invariant:
  assumes "ebss cfg \<le> ebss cfg + 32" and "ebss cfg + 32 < estack cfg - 8192"
  shows "(\<forall>x \<in> set (sbrk_calls fuel cfg (boot cfg mem) r incrs).
            ebss cfg \<le> current_heap_end (fst (snd x))
            \<and> current_heap_end (fst (snd x)) < estack cfg - 8192)
         \<and> (\<forall>(s::machine) incr.
              \<not> (ebss cfg \<le> current_heap_end s + incr \<and> current_heap_end s + incr < estack cfg - 8192)
              \<longrightarrow> fst (sbrk_r fuel cfg s r incr)
                    = (if use_malloc_failed_hook cfg then NoReturn else Returned (- 1))
                  \<and> current_heap_end (fst (snd (sbrk_r fuel cfg s r incr))) = current_heap_end s)"
proof (intro conjI allI impI)
  show "\<forall>x \<in> set (sbrk_calls fuel cfg (boot cfg mem) r incrs).
            ebss cfg \<le> current_heap_end (fst (snd x))
            \<and> current_heap_end (fst (snd x)) < estack cfg - 8192"
    using assms by (intro sbrk_calls_invariant) (simp_all add: boot_def)
next
  fix s :: machine and incr
  assume "\<not> (ebss cfg \<le> current_heap_end s + incr \<and> current_heap_end s + incr < estack cfg - 8192)"
  then have rej: "estack cfg - 8192 \<le> current_heap_end s + incr \<or> current_heap_end s + incr < ebss cfg"
    by (auto simp: not_le not_less)
  then show "current_heap_end (fst (snd (sbrk_r fuel cfg s r incr))) = current_heap_end s"
    by (rule sbrk_r_rejected)
  from rej show "fst (sbrk_r fuel cfg s r incr)
                    = (if use_malloc_failed_hook cfg then NoReturn else Returned (- 1))"
    by (rule sbrk_r_rejected)
qed


text \<open>
  An instance: four calls on the example layout, the second and the fourth rejected.
\<close>

theorem heap_bounds_invariant_witness:
  "ebss (example_config False) \<le> ebss (example_config False) + 32
   \<and> ebss (example_config False) + 32 < estack (example_config False) - 8192
   \<and> map (\<lambda>x. (fst x, current_heap_end (fst (snd x))))
        (sbrk_calls 0 (example_config False) (boot (example_config False) no_strings)
           \<lparr>errno = 0\<rparr> [64, 0x7FFFFFFF, - 96, - 32])
      = [(Returned 0x20004020, 0x20004060), (Returned (- 1), 0x20004060),
         (Returned 0x20004060, 0x20004000), (Returned (- 1), 0x20004000)]
   \<and> list_all (\<lambda>x. ebss (example_config False) \<le> current_heap_end (fst (snd x))
                  \<and> current_heap_end (fst (snd x)) < estack (example_config False) - 8192)
        (sbrk_calls 0 (example_config False) (boot (example_config False) no_strings)
           \<lparr>errno = 0\<rparr> [64, 0x7FFFFFFF, - 96, - 32])
   \<and> fst (sbrk_r 0 (example_config False) (boot (example_config False) no_strings)
           \<lparr>errno = 0\<rparr> 0x7FFFFFFF) = Returned (- 1)
   \<and> current_heap_end (fst (snd (sbrk_r 0 (example_config False)
           (boot (example_config False) no_strings) \<lparr>errno = 0\<rparr> 0x7FFFFFFF))) = 0x20004020"
proof -
  let ?cfg = "example_config False"
  have h1: "ebss ?cfg \<le> ebss ?cfg + 32" by (simp add: example_config_def)
  have h2: "ebss ?cfg + 32 < estack ?cfg - 8192" by (simp add: example_config_def)
  note inv = heap_bounds_invariant [OF h1 h2, of 0 no_strings "\<lparr>errno = 0\<rparr>"
      "[64, 0x7FFFFFFF, - 96, - 32]"]
  have run: "map (\<lambda>x. (fst x, current_heap_end (fst (snd x))))
        (sbrk_calls 0 ?cfg (boot ?cfg no_strings) \<lparr>errno = 0\<rparr> [64, 0x7FFFFFFF, - 96, - 32])
      = [(Returned 0x20004020, 0x20004060), (Returned (- 1), 0x20004060),
         (Returned 0x20004060, 0x20004000), (Returned (- 1), 0x20004000)]"
    by (simp add: sbrk_r_accepted sbrk_r_rejected_plain EXC_PRINTF_frame example_config_def
        boot_def del: append.simps)
  from inv have all: "list_all (\<lambda>x. ebss ?cfg \<le> current_heap_end (fst (snd x))
                  \<and> current_heap_end (fst (snd x)) < estack ?cfg - 8192)
        (sbrk_calls 0 ?cfg (boot ?cfg no_strings) \<lparr>errno = 0\<rparr> [64, 0x7FFFFFFF, - 96, - 32])"
    unfolding list_all_iff by (rule conjunct1)
  have out: "\<not> (ebss ?cfg \<le> current_heap_end (boot ?cfg no_strings) + 0x7FFFFFFF
           \<and> current_heap_end (boot ?cfg no_strings) + 0x7FFFFFFF < estack ?cfg - 8192)"
    by (simp add: example_config_def boot_def)
  from inv have "\<forall>(s::machine) incr.
              \<not> (ebss ?cfg \<le> current_heap_end s + incr \<and> current_heap_end s + incr < estack ?cfg - 8192)
              \<longrightarrow> fst (sbrk_r 0 ?cfg s \<lparr>errno = 0\<rparr> incr)
                    = (if use_malloc_failed_hook ?cfg then NoReturn else Returned (- 1))
                  \<and> current_heap_end (fst (snd (sbrk_r 0 ?cfg s \<lparr>errno = 0\<rparr> incr))) = current_heap_end s"
    by (rule conjunct2)
  with out have "fst (sbrk_r 0 ?cfg (boot ?cfg no_strings) \<lparr>errno = 0\<rparr> 0x7FFFFFFF)
                    = (if use_malloc_failed_hook ?cfg then NoReturn else Returned (- 1))
      \<and> current_heap_end (fst (snd (sbrk_r 0 ?cfg (boot ?cfg no_strings) \<lparr>errno = 0\<rparr> 0x7FFFFFFF)))
          = current_heap_end (boot ?cfg no_strings)"
    by blast
  then have rej: "fst (sbrk_r 0 ?cfg (boot ?cfg no_strings) \<lparr>errno = 0\<rparr> 0x7FFFFFFF) = Returned (- 1)
      \<and> current_heap_end (fst (snd (sbrk_r 0 ?cfg (boot ?cfg no_strings) \<lparr>errno = 0\<rparr> 0x7FFFFFFF)))
          = 0x20004020"
    by (simp add: example_config_def boot_def)
  from h1 h2 run all rej show ?thesis by blast
qed

text \<open>
  The claim as stated, with \<^verbatim>\<open>_ebss + 32\<close> as the lower bound, fails for a first call with
  an increment of \<open>- 16\<close>: the call succeeds and leaves the boundary 16 bytes below the
  initial one.
\<close>

theorem heap_below_initial_boundary:
  "current_heap_end (fst (snd (sbrk_r 0 (example_config False)
       (boot (example_config False) no_strings) \<lparr>errno = 0\<rparr> (- 16)))) = 0x20004010
   \<and> fst (sbrk_r 0 (example_config False)
       (boot (example_config False) no_strings) \<lparr>errno = 0\<rparr> (- 16)) = Returned 0x20004020
   \<and> (0x20004010 :: u32) < ebss (example_config False) + 32"
  by (simp add: sbrk_r_accepted example_config_def boot_def)

text \<open>
  Claim C3, amended: a failing request leaves \<^verbatim>\<open>current_heap_end\<close> as it was. Without the
  hook, \<^verbatim>\<open>_sbrk_r\<close> sets \<^verbatim>\<open>errno\<close> to \<^verbatim>\<open>ENOMEM\<close> and returns the sentinel, calling nothing of
  the board. With the hook, it calls \<^verbatim>\<open>vApplicationMallocFailedHook\<close> after the message is
  printed, \<^verbatim>\<open>errno\<close> is not written, and the call does not return: the state is the one
  the hook is in, for every amount of fuel.
\<close>

theorem sbrk_r_failure:
  assumes "estack cfg - 8192 \<le> current_heap_end s + incr \<or> current_heap_end s + incr < ebss cfg"
  shows "current_heap_end (fst (snd (sbrk_r fuel cfg s r incr))) = current_heap_end s
         \<and> (\<not> use_malloc_failed_hook cfg \<longrightarrow>
              fst (sbrk_r fuel cfg s r incr) = Returned (- 1)
              \<and> snd (snd (sbrk_r fuel cfg s r incr)) = r\<lparr>errno := ENOMEM\<rparr>
              \<and> hw_calls (fst (snd (sbrk_r fuel cfg s r incr))) = hw_calls s)
         \<and> (use_malloc_failed_hook cfg \<longrightarrow>
              fst (sbrk_r fuel cfg s r incr) = NoReturn
              \<and> snd (snd (sbrk_r fuel cfg s r incr)) = r
              \<and> fst (snd (sbrk_r fuel cfg s r incr))
                  = snd (vApplicationMallocFailedHook fuel cfg
                      (EXC_PRINTF (''_sbrk_r(%d): no mem available.'' @ CRLF) [incr] s)))"
proof (cases "use_malloc_failed_hook cfg")
  case True
  with assms show ?thesis
    by (simp add: sbrk_r_rejected_hook hook_heap EXC_PRINTF_frame del: append.simps)
next
  case False
  with assms show ?thesis
    by (simp add: sbrk_r_rejected_plain EXC_PRINTF_frame del: append.simps)
qed

text \<open>
  An instance for each setting of the hook: a request of \<open>2 ^ 31 - 1\<close> bytes on the
  example layout.
\<close>

theorem sbrk_r_failure_witness:
  "(estack (example_config False) - 8192
       \<le> current_heap_end (boot (example_config False) no_strings) + 0x7FFFFFFF)
   \<and> current_heap_end (fst (snd (sbrk_r 3 (example_config False)
         (boot (example_config False) no_strings) \<lparr>errno = 0\<rparr> 0x7FFFFFFF))) = 0x20004020
   \<and> fst (sbrk_r 3 (example_config False)
         (boot (example_config False) no_strings) \<lparr>errno = 0\<rparr> 0x7FFFFFFF) = Returned (- 1)
   \<and> snd (snd (sbrk_r 3 (example_config False)
         (boot (example_config False) no_strings) \<lparr>errno = 0\<rparr> 0x7FFFFFFF)) = \<lparr>errno = 12\<rparr>
   \<and> current_heap_end (fst (snd (sbrk_r 3 (example_config True)
         (boot (example_config True) no_strings) \<lparr>errno = 0\<rparr> 0x7FFFFFFF))) = 0x20004020
   \<and> fst (sbrk_r 3 (example_config True)
         (boot (example_config True) no_strings) \<lparr>errno = 0\<rparr> 0x7FFFFFFF) = NoReturn
   \<and> snd (snd (sbrk_r 3 (example_config True)
         (boot (example_config True) no_strings) \<lparr>errno = 0\<rparr> 0x7FFFFFFF)) = \<lparr>errno = 0\<rparr>"
proof -
  have a: "estack (example_config h) - 8192
             \<le> current_heap_end (boot (example_config h) no_strings) + 0x7FFFFFFF" for h
    by (simp add: example_config_def boot_def)
  have b: "use_malloc_failed_hook (example_config h) = h"
    and c: "current_heap_end (boot (example_config h) no_strings) = 0x20004020" for h
    by (simp_all add: example_config_def boot_def)
  note f = sbrk_r_failure [OF disjI1 [OF a [of False]], where fuel = 3 and r = "\<lparr>errno = 0\<rparr>"]
  note t = sbrk_r_failure [OF disjI1 [OF a [of True]], where fuel = 3 and r = "\<lparr>errno = 0\<rparr>"]
  have f1: "current_heap_end (fst (snd (sbrk_r 3 (example_config False)
         (boot (example_config False) no_strings) \<lparr>errno = 0\<rparr> 0x7FFFFFFF))) = 0x20004020"
    using f [THEN conjunct1] by (simp only: c)
  have f2: "fst (sbrk_r 3 (example_config False)
         (boot (example_config False) no_strings) \<lparr>errno = 0\<rparr> 0x7FFFFFFF) = Returned (- 1)
     \<and> snd (snd (sbrk_r 3 (example_config False)
         (boot (example_config False) no_strings) \<lparr>errno = 0\<rparr> 0x7FFFFFFF)) = \<lparr>errno = 12\<rparr>"
    using f [THEN conjunct2, THEN conjunct1] b [of False] by (simp add: ENOMEM_def)
  have t1: "current_heap_end (fst (snd (sbrk_r 3 (example_config True)
         (boot (example_config True) no_strings) \<lparr>errno = 0\<rparr> 0x7FFFFFFF))) = 0x20004020"
    using t [THEN conjunct1] by (simp only: c)
  have t2: "fst (sbrk_r 3 (example_config True)
         (boot (example_config True) no_strings) \<lparr>errno = 0\<rparr> 0x7FFFFFFF) = NoReturn
     \<and> snd (snd (sbrk_r 3 (example_config True)
         (boot (example_config True) no_strings) \<lparr>errno = 0\<rparr> 0x7FFFFFFF)) = \<lparr>errno = 0\<rparr>"
    using t [THEN conjunct2, THEN conjunct2] b [of True] by blast
  from a [of False] f1 f2 t1 t2 show ?thesis by blast
qed

text \<open>
  The claim as stated fails with the hook configured: the failing request does not
  return the sentinel.
\<close>

theorem sbrk_r_hook_failure_no_sentinel:
  "fst (sbrk_r 8 (example_config True) (boot (example_config True) no_strings)
          \<lparr>errno = 0\<rparr> 0x7FFFFFFF) \<noteq> Returned (- 1)"
proof -
  have "estack (example_config True) - 8192
          \<le> current_heap_end (boot (example_config True) no_strings) + 0x7FFFFFFF
        \<or> current_heap_end (boot (example_config True) no_strings) + 0x7FFFFFFF
          < ebss (example_config True)"
    by (simp add: example_config_def boot_def)
  from sbrk_r_rejected(2) [OF this, of 8 "\<lparr>errno = 0\<rparr>"] show ?thesis
    by (simp add: example_config_def)
qed

text \<open>
  Claim C5, amended: without the hook, every failing call returns the sentinel to its
  caller. With the hook configured, a failing call does not return, however much fuel
  the blink loop is given: the hook has suspended the scheduler, set the debug pin to
  output and the clock to 16 MHz, and is blinking.
\<close>

theorem sbrk_r_failure_control:
  assumes "estack cfg - 8192 \<le> current_heap_end s + incr \<or> current_heap_end s + incr < ebss cfg"
  shows "(\<not> use_malloc_failed_hook cfg \<longrightarrow> fst (sbrk_r fuel cfg s r incr) = Returned (- 1))
         \<and> (use_malloc_failed_hook cfg \<longrightarrow>
              fst (sbrk_r fuel cfg s r incr) = NoReturn
              \<and> (\<exists>cs. hw_calls (fst (snd (sbrk_r fuel cfg s r incr)))
                    = hw_calls s @ [TaskSuspendAll, PinModeOutput (debug_led_pin cfg),
                                    SetArmClock 16000000] @ cs))"
proof (cases "use_malloc_failed_hook cfg")
  case True
  obtain cs where "hw_calls (snd (error_blink fuel cfg 2
        (EXC_PRINTF (''_sbrk_r(%d): no mem available.'' @ CRLF) [incr] s)))
      = hw_calls (EXC_PRINTF (''_sbrk_r(%d): no mem available.'' @ CRLF) [incr] s)
          @ [TaskSuspendAll, PinModeOutput (debug_led_pin cfg), SetArmClock 16000000] @ cs"
    using error_blink_calls by blast
  with True assms show ?thesis
    by (simp add: sbrk_r_rejected_hook vApplicationMallocFailedHook_def EXC_PRINTF_frame
        del: append.simps)
next
  case False
  with assms show ?thesis
    by (simp add: sbrk_r_rejected_plain del: append.simps)
qed

text \<open>
  An instance for each setting of the hook: a request of 512 KiB on the example layout,
  whose region is smaller.
\<close>

theorem sbrk_r_failure_control_witness:
  "(estack (example_config False) - 8192
       \<le> current_heap_end (boot (example_config False) no_strings) + 0x00080000)
   \<and> fst (sbrk_r 5 (example_config False)
         (boot (example_config False) no_strings) \<lparr>errno = 0\<rparr> 0x00080000) = Returned (- 1)
   \<and> fst (sbrk_r 5 (example_config True)
         (boot (example_config True) no_strings) \<lparr>errno = 0\<rparr> 0x00080000) = NoReturn
   \<and> take 3 (hw_calls (fst (snd (sbrk_r 5 (example_config True)
         (boot (example_config True) no_strings) \<lparr>errno = 0\<rparr> 0x00080000))))
      = [TaskSuspendAll, PinModeOutput 13, SetArmClock 16000000]"
proof -
  have a: "estack (example_config h) - 8192
             \<le> current_heap_end (boot (example_config h) no_strings) + 0x00080000" for h
    by (simp add: example_config_def boot_def)
  have b: "use_malloc_failed_hook (example_config h) = h"
    and c: "hw_calls (boot (example_config h) no_strings) = []"
    and d: "debug_led_pin (example_config h) = 13" for h
    by (simp_all add: example_config_def boot_def)
  from sbrk_r_failure_control [OF disjI1 [OF a [of False]], where fuel = 5 and r = "\<lparr>errno = 0\<rparr>"]
       sbrk_r_failure_control [OF disjI1 [OF a [of True]], where fuel = 5 and r = "\<lparr>errno = 0\<rparr>"] a [of False]
  show ?thesis
    by (auto simp: b c d)
qed

text \<open>
  The claim as stated fails with the hook configured: control does not come back from
  the failing call.
\<close>

theorem sbrk_r_hook_failure_no_return:
  "fst (sbrk_r 1000 (example_config True) (boot (example_config True) no_strings)
          \<lparr>errno = 0\<rparr> 0x00080000) = NoReturn"
proof -
  have "estack (example_config True) - 8192
          \<le> current_heap_end (boot (example_config True) no_strings) + 0x00080000
        \<or> current_heap_end (boot (example_config True) no_strings) + 0x00080000
          < ebss (example_config True)"
    by (simp add: example_config_def boot_def)
  from sbrk_r_rejected(2) [OF this, of 1000 "\<lparr>errno = 0\<rparr>"] show ?thesis
    by (simp add: example_config_def)
qed

text \<open>Growth without wrap-around: sums of increments read as natural numbers.\<close>

lemma unat_sum_list:
  "sum_list (map unat xs) < 2 ^ 32 \<Longrightarrow> unat (sum_list xs :: u32) = sum_list (map unat xs)"
proof (induction xs)
  case Nil
  show ?case by simp
next
  case (Cons x xs)
  then have "unat (sum_list xs) = sum_list (map unat xs)" by simp
  with Cons.prems show ?case by (simp add: unat_word_ariths)
qed

lemma sum_take_le: "sum_list (map unat (take k xs)) \<le> sum_list (map (unat :: u32 \<Rightarrow> nat) xs)"
proof -
  have "sum_list (map unat xs) = sum_list (map unat (take k xs)) + sum_list (map unat (drop k xs))"
    by (metis append_take_drop_id map_append sum_list_append)
  then show ?thesis by simp
qed

lemma sum_take_strict:
  assumes "j < k" "k \<le> length xs" "\<forall>x \<in> set xs. 0 < unat (x :: u32)"
  shows "sum_list (map unat (take j xs)) < sum_list (map unat (take k xs))"
proof -
  have split: "take k xs = take j xs @ drop j (take k xs)"
    using assms(1) by (metis append_take_drop_id min.absorb1 less_imp_le take_take)
  have ne: "drop j (take k xs) \<noteq> []" using assms by simp
  then obtain y ys where ys: "drop j (take k xs) = y # ys" by (cases "drop j (take k xs)") auto
  then have "y \<in> set xs"
    by (metis in_set_dropD in_set_takeD list.set_intros(1))
  with assms(3) have "0 < unat y" by blast
  then have "0 < sum_list (map unat (drop j (take k xs)))" using ys by simp
  moreover have "sum_list (map unat (take k xs))
      = sum_list (map unat (take j xs)) + sum_list (map unat (drop j (take k xs)))"
    by (subst split) simp
  ultimately show ?thesis by simp
qed

lemma sbrk_r_grow:
  assumes "unat (ebss cfg) \<le> unat (current_heap_end s)"
    and "unat (current_heap_end s) + unat incr < unat (estack cfg) - 8192"
  shows "sbrk_r fuel cfg s r incr =
           (Returned (current_heap_end s), s\<lparr>current_heap_end := current_heap_end s + incr\<rparr>, r)"
    and "unat (current_heap_end s + incr) = unat (current_heap_end s) + unat incr"
proof -
  have "unat (estack cfg) < 2 ^ 32" using unsigned_less [of "estack cfg", where ?'a = nat] by simp
  with assms(2) show sum: "unat (current_heap_end s + incr) = unat (current_heap_end s) + unat incr"
    by (simp add: unat_word_ariths)
  have "8192 \<le> unat (estack cfg)" using assms(2) by simp
  then have "unat (estack cfg - 8192) = unat (estack cfg) - 8192"
    by (simp add: unat_sub word_le_nat_alt)
  with sum assms have "\<not> (estack cfg - 8192 \<le> current_heap_end s + incr
        \<or> current_heap_end s + incr < ebss cfg)"
    by (simp add: word_le_nat_alt word_less_nat_alt)
  then show "sbrk_r fuel cfg s r incr =
           (Returned (current_heap_end s), s\<lparr>current_heap_end := current_heap_end s + incr\<rparr>, r)"
    by (rule sbrk_r_accepted)
qed

lemma sbrk_calls_grow:
  assumes "unat (ebss cfg) \<le> unat (current_heap_end s)"
    and "unat (current_heap_end s) + sum_list (map unat incrs) < unat (estack cfg) - 8192"
  shows "length (sbrk_calls fuel cfg s r incrs) = length incrs
         \<and> (\<forall>k<length incrs. sbrk_calls fuel cfg s r incrs ! k =
               (Returned (current_heap_end s + sum_list (take k incrs)),
                s\<lparr>current_heap_end := current_heap_end s + sum_list (take (Suc k) incrs)\<rparr>, r))"
  using assms
proof (induction incrs arbitrary: s)
  case Nil
  show ?case by simp
next
  case (Cons i incrs)
  let ?s' = "s\<lparr>current_heap_end := current_heap_end s + i\<rparr>"
  have fit: "unat (current_heap_end s) + unat i < unat (estack cfg) - 8192"
    using Cons.prems(2) by simp
  note step = sbrk_r_grow [OF Cons.prems(1) fit]
  have "unat (ebss cfg) \<le> unat (current_heap_end ?s')"
    using step(2) Cons.prems(1) by simp
  moreover have "unat (current_heap_end ?s') + sum_list (map unat incrs) < unat (estack cfg) - 8192"
    using step(2) Cons.prems(2) by simp
  ultimately have IH: "length (sbrk_calls fuel cfg ?s' r incrs) = length incrs
         \<and> (\<forall>k<length incrs. sbrk_calls fuel cfg ?s' r incrs ! k =
               (Returned (current_heap_end ?s' + sum_list (take k incrs)),
                ?s'\<lparr>current_heap_end := current_heap_end ?s' + sum_list (take (Suc k) incrs)\<rparr>, r))"
    by (rule Cons.IH)
  have unfold: "sbrk_calls fuel cfg s r (i # incrs)
      = (Returned (current_heap_end s), ?s', r) # sbrk_calls fuel cfg ?s' r incrs"
    by (simp add: step(1))
  show ?case
  proof (intro conjI allI impI)
    show "length (sbrk_calls fuel cfg s r (i # incrs)) = length (i # incrs)"
      unfolding unfold using IH by simp
  next
    fix k assume k: "k < length (i # incrs)"
    show "sbrk_calls fuel cfg s r (i # incrs) ! k =
               (Returned (current_heap_end s + sum_list (take k (i # incrs))),
                s\<lparr>current_heap_end := current_heap_end s + sum_list (take (Suc k) (i # incrs))\<rparr>, r)"
    proof (cases k)
      case 0
      then show ?thesis unfolding unfold by simp
    next
      case (Suc k')
      with k have "k' < length incrs" by simp
      with IH have "sbrk_calls fuel cfg ?s' r incrs ! k' =
               (Returned (current_heap_end ?s' + sum_list (take k' incrs)),
                ?s'\<lparr>current_heap_end := current_heap_end ?s' + sum_list (take (Suc k') incrs)\<rparr>, r)"
        by blast
      then show ?thesis unfolding unfold Suc by (simp add: add.assoc)
    qed
  qed
qed


text \<open>
  Claim C4, amended: the bound on the sum is strict, and the strict order of the
  pointers needs positive increments. For every sequence of calls whose increments
  (read as unsigned sizes) sum to less than the size of the region,
  \<open>(_estack - 8192) - (_ebss + 32)\<close>, every call returns (in both settings of the hook),
  the pointer returned by call \<open>k\<close> is the initial boundary plus the sum of the
  increments before it and is not the sentinel, and \<^verbatim>\<open>current_heap_end\<close> after the call is
  that pointer plus the increment of the call. When every increment is positive, the
  pointers returned are strictly increasing.
\<close>

theorem sbrk_growth_sequence:
  assumes fit: "sum_list (map unat incrs) < (unat (estack cfg) - 8192) - (unat (ebss cfg) + 32)"
  shows "length (sbrk_calls fuel cfg (boot cfg mem) r incrs) = length incrs
         \<and> (\<forall>k<length incrs.
               fst (sbrk_calls fuel cfg (boot cfg mem) r incrs ! k)
                 = Returned (ebss cfg + 32 + sum_list (take k incrs))
               \<and> ebss cfg + 32 + sum_list (take k incrs) \<noteq> - 1
               \<and> current_heap_end (fst (snd (sbrk_calls fuel cfg (boot cfg mem) r incrs ! k)))
                 = ebss cfg + 32 + sum_list (take k incrs) + incrs ! k)
         \<and> ((\<forall>i \<in> set incrs. 0 <s i) \<longrightarrow>
              (\<forall>j k. j < k \<and> k < length incrs \<longrightarrow>
                 ebss cfg + 32 + sum_list (take j incrs) < ebss cfg + 32 + sum_list (take k incrs)))"
proof -
  let ?s = "boot cfg mem"
  have top: "unat (estack cfg) < 2 ^ 32"
    using unsigned_less [of "estack cfg", where ?'a = nat] by simp
  have start: "unat (ebss cfg + 32) = unat (ebss cfg) + 32"
    using fit top by (simp add: unat_word_ariths)
  have cur: "current_heap_end ?s = ebss cfg + 32" by (simp add: boot_def)
  have a: "unat (ebss cfg) \<le> unat (current_heap_end ?s)" by (simp add: cur start)
  have b: "unat (current_heap_end ?s) + sum_list (map unat incrs) < unat (estack cfg) - 8192"
    using fit by (simp add: cur start)
  note run = sbrk_calls_grow [OF a b, of fuel r]
  have val: "unat (ebss cfg + 32 + sum_list (take k incrs))
               = unat (ebss cfg) + 32 + sum_list (map unat (take k incrs))" for k
  proof -
    have le: "sum_list (map unat (take k incrs)) \<le> sum_list (map unat incrs)"
      by (rule sum_take_le)
    with fit top have "sum_list (map unat (take k incrs)) < 2 ^ 32" by simp
    then have "unat (sum_list (take k incrs)) = sum_list (map unat (take k incrs))"
      by (rule unat_sum_list)
    moreover have "unat (ebss cfg) + 32 + sum_list (map unat (take k incrs)) < 2 ^ 32"
      using le fit top by simp
    ultimately show ?thesis
      using start by (simp add: unat_word_ariths)
  qed
  show ?thesis
  proof (intro conjI allI impI)
    show "length (sbrk_calls fuel cfg ?s r incrs) = length incrs"
      using run by blast
  next
    fix k assume k: "k < length incrs"
    with run have nth: "sbrk_calls fuel cfg ?s r incrs ! k =
               (Returned (current_heap_end ?s + sum_list (take k incrs)),
                ?s\<lparr>current_heap_end := current_heap_end ?s + sum_list (take (Suc k) incrs)\<rparr>, r)"
      by blast
    show "fst (sbrk_calls fuel cfg ?s r incrs ! k) = Returned (ebss cfg + 32 + sum_list (take k incrs))"
      by (simp add: nth cur)
    show "current_heap_end (fst (snd (sbrk_calls fuel cfg ?s r incrs ! k)))
                 = ebss cfg + 32 + sum_list (take k incrs) + incrs ! k"
      using k by (simp add: nth cur take_Suc_conv_app_nth add.assoc)
    have "unat (ebss cfg + 32 + sum_list (take k incrs)) < unat (estack cfg) - 8192"
      using val [of k] sum_take_le [of k incrs] fit by simp
    moreover have "unat (- 1 :: u32) = 4294967295"
      by (simp add: unsigned_minus_1_eq_mask mask_eq_exp_minus_1)
    ultimately have "unat (ebss cfg + 32 + sum_list (take k incrs)) \<noteq> unat (- 1 :: u32)"
      using top by simp
    then show "ebss cfg + 32 + sum_list (take k incrs) \<noteq> - 1"
      by metis
  next
    fix j k
    assume pos: "\<forall>i \<in> set incrs. 0 <s i" and jk: "j < k \<and> k < length incrs"
    have nz: "\<forall>x \<in> set incrs. 0 < unat x"
    proof
      fix x assume "x \<in> set incrs"
      with pos have "0 <s x" by blast
      then have "x \<noteq> 0" by auto
      then show "0 < unat x" by (simp add: unat_gt_0)
    qed
    from jk have "sum_list (map unat (take j incrs)) < sum_list (map unat (take k incrs))"
      using nz by (intro sum_take_strict) simp_all
    then show "ebss cfg + 32 + sum_list (take j incrs) < ebss cfg + 32 + sum_list (take k incrs)"
      by (simp add: word_less_nat_alt val)
  qed
qed

text \<open>
  Two instances on the example layout: the calls 0, 64, 0, which follow the formula
  though two increments are not positive, and the calls of 64 bytes, 4 KiB and 448 KiB,
  whose pointers are strictly increasing.
\<close>

theorem sbrk_growth_sequence_witness:
  "sum_list (map unat [0, 64, 0 :: u32])
       < (unat (estack (example_config False)) - 8192) - (unat (ebss (example_config False)) + 32)
   \<and> length (sbrk_calls 0 (example_config False) (boot (example_config False) no_strings)
                \<lparr>errno = 0\<rparr> [0, 64, 0]) = 3
   \<and> fst (sbrk_calls 0 (example_config False) (boot (example_config False) no_strings)
                \<lparr>errno = 0\<rparr> [0, 64, 0] ! 2) = Returned 0x20004060
   \<and> current_heap_end (fst (snd (sbrk_calls 0 (example_config False)
                (boot (example_config False) no_strings) \<lparr>errno = 0\<rparr> [0, 64, 0] ! 2)))
       = 0x20004060
   \<and> 0 <s (64 :: u32) \<and> 0 <s (4096 :: u32) \<and> 0 <s (0x70000 :: u32)
   \<and> sum_list (map unat [64, 4096, 0x70000 :: u32])
       < (unat (estack (example_config True)) - 8192) - (unat (ebss (example_config True)) + 32)
   \<and> length (sbrk_calls 0 (example_config True) (boot (example_config True) no_strings)
                \<lparr>errno = 0\<rparr> [64, 4096, 0x70000]) = 3
   \<and> fst (sbrk_calls 0 (example_config True) (boot (example_config True) no_strings)
                \<lparr>errno = 0\<rparr> [64, 4096, 0x70000] ! 2) = Returned 0x20005060
   \<and> current_heap_end (fst (snd (sbrk_calls 0 (example_config True)
                (boot (example_config True) no_strings) \<lparr>errno = 0\<rparr> [64, 4096, 0x70000] ! 2)))
       = 0x20075060
   \<and> (0x20004020 :: u32) < 0x20005060"
proof -
  let ?cfg = "example_config True"
  let ?plain = "example_config False"
  have fz: "sum_list (map unat [0, 64, 0 :: u32])
       < (unat (estack ?plain) - 8192) - (unat (ebss ?plain) + 32)"
    by (simp add: example_config_def)
  note z = sbrk_growth_sequence [OF fz, of 0 no_strings "\<lparr>errno = 0\<rparr>"]
  from z have zlen: "length (sbrk_calls 0 ?plain (boot ?plain no_strings)
                \<lparr>errno = 0\<rparr> [0, 64, 0]) = 3"
    by simp
  have two: "(2::nat) < length [0, 64, 0 :: u32]" by simp
  from z [THEN conjunct2, THEN conjunct1, rule_format, OF two]
  have zthird: "fst (sbrk_calls 0 ?plain (boot ?plain no_strings) \<lparr>errno = 0\<rparr> [0, 64, 0] ! 2)
                 = Returned 0x20004060
               \<and> current_heap_end (fst (snd (sbrk_calls 0 ?plain (boot ?plain no_strings)
                    \<lparr>errno = 0\<rparr> [0, 64, 0] ! 2))) = 0x20004060"
    by (simp add: example_config_def numeral_2_eq_2)
  have p: "\<forall>i \<in> set [64, 4096, 0x70000 :: u32]. 0 <s i"
    by (simp add: word_sless_alt)
  have f: "sum_list (map unat [64, 4096, 0x70000 :: u32])
       < (unat (estack ?cfg) - 8192) - (unat (ebss ?cfg) + 32)"
    by (simp add: example_config_def)
  note g = sbrk_growth_sequence [OF f, of 0 no_strings "\<lparr>errno = 0\<rparr>"]
  from g have len: "length (sbrk_calls 0 ?cfg (boot ?cfg no_strings)
                \<lparr>errno = 0\<rparr> [64, 4096, 0x70000]) = 3"
    by simp
  have two': "(2::nat) < length [64, 4096, 0x70000 :: u32]" by simp
  from g [THEN conjunct2, THEN conjunct1, rule_format, OF two']
  have third: "fst (sbrk_calls 0 ?cfg (boot ?cfg no_strings) \<lparr>errno = 0\<rparr> [64, 4096, 0x70000] ! 2)
                 = Returned 0x20005060
               \<and> current_heap_end (fst (snd (sbrk_calls 0 ?cfg (boot ?cfg no_strings)
                    \<lparr>errno = 0\<rparr> [64, 4096, 0x70000] ! 2))) = 0x20075060"
    by (simp add: example_config_def numeral_2_eq_2)
  have "(0::nat) < 2 \<and> 2 < length [64, 4096, 0x70000 :: u32]" by simp
  from g [THEN conjunct2, THEN conjunct2, rule_format, OF p [rule_format] this]
  have "ebss ?cfg + 32 + sum_list (take 0 [64, 4096, 0x70000])
                 < ebss ?cfg + 32 + sum_list (take 2 [64, 4096, 0x70000])" .
  then have inc: "(0x20004020 :: u32) < 0x20005060"
    by (simp add: example_config_def numeral_2_eq_2)
  have q: "0 <s (64 :: u32) \<and> 0 <s (4096 :: u32) \<and> 0 <s (0x70000 :: u32)"
    using p by simp
  from fz zlen zthird q f len third inc show ?thesis by blast
qed

text \<open>
  The claim as stated fails in two places. A request of exactly the size of the region
  (\<open>0x71FE0\<close> bytes on the example layout) is rejected, since the projected boundary
  \<^verbatim>\<open>_estack - 8192\<close> itself is refused. And the pointers returned are not strictly
  increasing when an increment is not positive: two calls with an increment of 0 return
  the same pointer, and after a call with \<open>- 16\<close> the next call returns a lower pointer.
\<close>

theorem sbrk_exact_fit_rejected:
  "unat (0x71FE0 :: u32)
     = (unat (estack (example_config False)) - 8192) - (unat (ebss (example_config False)) + 32)
   \<and> fst (sbrk_r 0 (example_config False) (boot (example_config False) no_strings)
            \<lparr>errno = 0\<rparr> 0x71FE0) = Returned (- 1)
   \<and> current_heap_end (fst (snd (sbrk_r 0 (example_config False)
            (boot (example_config False) no_strings) \<lparr>errno = 0\<rparr> 0x71FE0))) = 0x20004020
   \<and> map fst (sbrk_calls 0 (example_config False) (boot (example_config False) no_strings)
            \<lparr>errno = 0\<rparr> [0, 0]) = [Returned 0x20004020, Returned 0x20004020]
   \<and> map fst (sbrk_calls 0 (example_config False) (boot (example_config False) no_strings)
            \<lparr>errno = 0\<rparr> [- 16, 16]) = [Returned 0x20004020, Returned 0x20004010]"
  by (simp add: sbrk_r_accepted sbrk_r_rejected_plain EXC_PRINTF_frame example_config_def boot_def
      del: append.simps)

subsection \<open>Frame walker\<close>

text \<open>Every call of \<^verbatim>\<open>trace_fcn\<close> sends one line.\<close>

lemma frame_lines_append: "frame_lines (a @ b) = frame_lines a + frame_lines b"
  by (simp add: frame_lines_def)

lemma frame_lines_none: "CHR 0x0A \<notin> set text \<Longrightarrow> frame_lines text = 0"
  by (simp add: frame_lines_def)

lemma trace_fcn_entry:
  assumes "task_entry cfg ctx"
  shows "fst (trace_fcn cfg ctx depth s) = URC_END_OF_STACK"
    and "fst (snd (trace_fcn cfg ctx depth s)) = ctx"
    and "fst (snd (snd (trace_fcn cfg ctx depth s))) = depth"
    and "g_trace_lr (snd (snd (snd (trace_fcn cfg ctx depth s)))) = g_trace_lr s"
  using assms by (simp_all add: trace_fcn_def task_entry_def Let_def EXC_PRINTF_frame)

lemma trace_fcn_frame:
  assumes "\<not> task_entry cfg ctx"
  shows "fst (trace_fcn cfg ctx depth s) = (if depth + 1 = 32 then URC_END_OF_STACK else URC_NO_REASON)"
    and "fst (snd (trace_fcn cfg ctx depth s))
           = (if g_trace_lr s \<noteq> 0 then Unwind_SetGR ctx 14 (g_trace_lr s) else ctx)"
    and "fst (snd (snd (trace_fcn cfg ctx depth s))) = depth + 1"
    and "g_trace_lr (snd (snd (snd (trace_fcn cfg ctx depth s)))) = 0"
  using assms by (simp_all add: trace_fcn_def task_entry_def Let_def EXC_PRINTF_frame)

lemma EXC_PRINTF_lines:
  "exc_printf (cstr s) f a = Some text \<Longrightarrow>
   frame_lines (serial (EXC_PRINTF f a s)) = frame_lines (serial s) + frame_lines text"
  by (simp add: EXC_PRINTF_def frame_lines_append)

lemma lines_depth:
  "frame_lines (serial (EXC_PRINTF (TAB @ ''#%d'') [depth] s)) = frame_lines (serial s)"
proof -
  have "frame_lines (TAB @ ''#'' @ (if depth <s 0 then CHR ''-'' # puint_digits (- depth) []
             else puint_digits depth [])) = 0"
    by (rule frame_lines_none) (simp add: TAB_def no_LF_digits)
  with EXC_PRINTF_lines [OF print_depth] show ?thesis by simp
qed

lemma lines_entry:
  "frame_lines (serial (EXC_PRINTF ('':'' @ TAB @ ''[Task entry point]'' @ CRLF) [] s))
     = frame_lines (serial s) + 1"
proof -
  have "frame_lines ('':'' @ TAB @ ''[Task entry point]'' @ CRLF) = 1"
    by (simp add: frame_lines_def TAB_def CRLF_def)
  with EXC_PRINTF_lines [OF print_entry] show ?thesis by simp
qed

lemma lines_ip:
  "frame_lines (serial (EXC_PRINTF ('':'' @ TAB @ ''0x%04x'') [v] s)) = frame_lines (serial s)"
proof -
  have "frame_lines ('':'' @ TAB @ ''0x'' @ hex_digits 8 v) = 0"
    by (rule frame_lines_none) (simp add: TAB_def no_LF_hex del: hex_digits.simps)
  with EXC_PRINTF_lines [OF print_ip] show ?thesis by simp
qed

lemma lines_start:
  "frame_lines (serial (EXC_PRINTF ('' [0x%04x]'' @ CRLF) [v] s)) = frame_lines (serial s) + 1"
proof -
  have "frame_lines ('' [0x'' @ hex_digits 8 v @ '']'' @ CRLF) = 1"
    using no_LF_hex [of v] by (simp add: frame_lines_def CRLF_def del: hex_digits.simps)
  with EXC_PRINTF_lines [OF print_start] show ?thesis by simp
qed

lemma trace_fcn_one_line:
  "frame_lines (serial (snd (snd (snd (trace_fcn cfg ctx depth s))))) = frame_lines (serial s) + 1"
  by (simp add: trace_fcn_def Let_def lines_depth lines_entry lines_ip lines_start
      del: append.simps)

text \<open>
  The three ways one round of the walk can go: the frame is a task entry, the depth
  counter reaches 32, or the walk goes on.
\<close>

lemma walk_entry:
  assumes "task_entry cfg ctx"
  shows "unwind_backtrace cfg (ctx # ctxs) depth s
           = ([(URC_END_OF_STACK, ctx)], depth, snd (snd (snd (trace_fcn cfg ctx depth s))))"
proof -
  obtain code ctx' depth' s' where t: "trace_fcn cfg ctx depth s = (code, ctx', depth', s')"
    by (cases "trace_fcn cfg ctx depth s") auto
  with trace_fcn_entry [OF assms, of depth s]
  have "code = URC_END_OF_STACK" "ctx' = ctx" "depth' = depth" by simp_all
  with t show ?thesis by simp
qed

lemma walk_cap:
  assumes "\<not> task_entry cfg ctx" and "depth + 1 = 32"
  shows "unwind_backtrace cfg (ctx # ctxs) depth s
           = ([(URC_END_OF_STACK, if g_trace_lr s \<noteq> 0 then Unwind_SetGR ctx 14 (g_trace_lr s) else ctx)],
              depth + 1, snd (snd (snd (trace_fcn cfg ctx depth s))))"
proof -
  obtain code ctx' depth' s' where t: "trace_fcn cfg ctx depth s = (code, ctx', depth', s')"
    by (cases "trace_fcn cfg ctx depth s") auto
  with trace_fcn_frame [OF assms(1), of depth s] assms(2)
  have "code = URC_END_OF_STACK" "depth' = depth + 1"
    "ctx' = (if g_trace_lr s \<noteq> 0 then Unwind_SetGR ctx 14 (g_trace_lr s) else ctx)"
    by simp_all
  with t show ?thesis by simp
qed

lemma walk_step:
  assumes "\<not> task_entry cfg ctx" and "depth + 1 \<noteq> 32"
  shows "unwind_backtrace cfg (ctx # ctxs) depth s
           = ((URC_NO_REASON, if g_trace_lr s \<noteq> 0 then Unwind_SetGR ctx 14 (g_trace_lr s) else ctx)
                # fst (unwind_backtrace cfg ctxs (depth + 1) (snd (snd (snd (trace_fcn cfg ctx depth s))))),
              snd (unwind_backtrace cfg ctxs (depth + 1) (snd (snd (snd (trace_fcn cfg ctx depth s))))))"
proof -
  obtain code ctx' depth' s' where t: "trace_fcn cfg ctx depth s = (code, ctx', depth', s')"
    by (cases "trace_fcn cfg ctx depth s") auto
  with trace_fcn_frame [OF assms(1), of depth s] assms(2)
  have "code = URC_NO_REASON" "depth' = depth + 1"
    "ctx' = (if g_trace_lr s \<noteq> 0 then Unwind_SetGR ctx 14 (g_trace_lr s) else ctx)"
    by simp_all
  with t show ?thesis by (simp split: prod.splits)
qed

declare unwind_backtrace.simps(2) [simp del]

lemma depth_succ:
  assumes "unat (depth :: u32) < 32"
  shows "unat (depth + 1) = unat depth + 1" and "depth + 1 = 32 \<longleftrightarrow> unat depth = 31"
proof -
  show a: "unat (depth + 1) = unat depth + 1"
    using assms by (simp add: unat_word_ariths)
  have "depth + 1 = 32 \<longleftrightarrow> unat (depth + 1) = unat (32 :: u32)"
    by (rule word_unat_eq_iff)
  with a show "depth + 1 = 32 \<longleftrightarrow> unat depth = 31" by simp
qed

lemma walk_length:
  "unat depth < 32 \<Longrightarrow> length (fst (unwind_backtrace cfg frames depth s)) \<le> 32 - unat depth"
proof (induction frames arbitrary: depth s)
  case Nil
  show ?case by simp
next
  case (Cons ctx ctxs)
  show ?case
  proof (cases "task_entry cfg ctx")
    case True
    with Cons.prems show ?thesis by (simp add: walk_entry)
  next
    case False
    show ?thesis
    proof (cases "depth + 1 = 32")
      case True
      with False Cons.prems show ?thesis by (simp add: walk_cap)
    next
      case stay: False
      with depth_succ [OF Cons.prems] have d: "unat (depth + 1) < 32" "unat (depth + 1) = unat depth + 1"
        using Cons.prems by simp_all
      let ?s' = "snd (snd (snd (trace_fcn cfg ctx depth s)))"
      have "length (fst (unwind_backtrace cfg ctxs (depth + 1) ?s')) \<le> 32 - unat (depth + 1)"
        using d(1) by (rule Cons.IH)
      then have "Suc (length (fst (unwind_backtrace cfg ctxs (depth + 1) ?s'))) \<le> 32 - unat depth"
        using d by simp
      with False stay show ?thesis
        by (simp add: walk_step)
    qed
  qed
qed

lemma walk_lines:
  "frame_lines (serial (snd (snd (unwind_backtrace cfg frames depth s))))
     = frame_lines (serial s) + length (fst (unwind_backtrace cfg frames depth s))"
proof (induction frames arbitrary: depth s)
  case Nil
  show ?case by simp
next
  case (Cons ctx ctxs)
  show ?case
  proof (cases "task_entry cfg ctx")
    case True
    then show ?thesis by (simp add: walk_entry trace_fcn_one_line)
  next
    case False
    show ?thesis
    proof (cases "depth + 1 = 32")
      case True
      with False show ?thesis by (simp add: walk_cap trace_fcn_one_line)
    next
      case stay: False
      with False show ?thesis
        by (simp add: walk_step Cons.IH trace_fcn_one_line)
    qed
  qed
qed

lemma walk_to_entry:
  assumes "unat depth + k < 32" and "k < length frames" and "task_entry cfg (frames ! k)"
    and "\<forall>j<k. \<not> task_entry cfg (frames ! j)"
  shows "map fst (fst (unwind_backtrace cfg frames depth s))
           = replicate k URC_NO_REASON @ [URC_END_OF_STACK]"
  using assms
proof (induction frames arbitrary: depth s k)
  case Nil
  then show ?case by simp
next
  case (Cons ctx ctxs)
  show ?case
  proof (cases k)
    case 0
    with Cons.prems show ?thesis by (simp add: walk_entry)
  next
    case (Suc k')
    with Cons.prems have ne: "\<not> task_entry cfg ctx" by auto
    have small: "unat depth < 32" using Cons.prems(1) by simp
    with Cons.prems(1) Suc depth_succ [OF small] have stay: "depth + 1 \<noteq> 32"
      and d: "unat (depth + 1) + k' < 32" by simp_all
    have rest: "k' < length ctxs" "task_entry cfg (ctxs ! k')" "\<forall>j<k'. \<not> task_entry cfg (ctxs ! j)"
      using Cons.prems Suc by auto
    from Cons.IH [OF d rest] ne stay Suc show ?thesis
      by (simp add: walk_step)
  qed
qed

lemma walk_no_entry:
  assumes "unat depth < 32"
    and "\<forall>j<length frames. unat depth + j < 32 \<longrightarrow> \<not> task_entry cfg (frames ! j)"
  shows "map fst (fst (unwind_backtrace cfg frames depth s))
           = (if 32 - unat depth \<le> length frames
              then replicate (31 - unat depth) URC_NO_REASON @ [URC_END_OF_STACK]
              else replicate (length frames) URC_NO_REASON)"
  using assms
proof (induction frames arbitrary: depth s)
  case Nil
  then show ?case by simp
next
  case (Cons ctx ctxs)
  from Cons.prems have ne: "\<not> task_entry cfg ctx" by auto
  note ds = depth_succ [OF Cons.prems(1)]
  show ?case
  proof (cases "depth + 1 = 32")
    case True
    with ds have "unat depth = 31" by simp
    with ne True show ?thesis by (simp add: walk_cap)
  next
    case stay: False
    with ds Cons.prems(1) have d: "unat (depth + 1) < 32" and e: "unat (depth + 1) = unat depth + 1"
      by simp_all
    have "\<forall>j<length ctxs. unat (depth + 1) + j < 32 \<longrightarrow> \<not> task_entry cfg (ctxs ! j)"
    proof (intro allI impI)
      fix j assume "j < length ctxs" "unat (depth + 1) + j < 32"
      then have "Suc j < length (ctx # ctxs)" "unat depth + Suc j < 32" using e by simp_all
      with Cons.prems(2) have "\<not> task_entry cfg ((ctx # ctxs) ! Suc j)" by blast
      then show "\<not> task_entry cfg (ctxs ! j)" by simp
    qed
    from Cons.IH [OF d this] ne stay e d show ?thesis
      by (auto simp: walk_step Suc_diff_Suc replicate_Suc [symmetric] simp del: replicate_Suc)
  qed
qed

text \<open>
  Claim C7: a walk that starts with the depth counter at 0 (as \<^verbatim>\<open>assert_blink\<close> starts it)
  calls \<^verbatim>\<open>trace_fcn\<close> at most 32 times, and every call sends exactly one line, so at most
  32 lines are sent. When the first task-entry frame (instruction pointer equal to
  \<^verbatim>\<open>prvTaskExitError\<close> without the thumb bit, or zero) is among the first 32 frames, the
  callback returns \<^verbatim>\<open>_URC_NO_REASON\<close> for every frame before it and \<^verbatim>\<open>_URC_END_OF_STACK\<close> at
  it, and no later frame is visited. When there is no such frame among the first 32,
  the walk is ended by \<^verbatim>\<open>_URC_END_OF_STACK\<close> at the 32nd frame, or goes through all the
  frames if they are fewer.
\<close>

theorem frame_walk_stops:
  "length (fst (unwind_backtrace cfg frames 0 s)) \<le> 32
   \<and> frame_lines (serial (snd (snd (unwind_backtrace cfg frames 0 s))))
       = frame_lines (serial s) + length (fst (unwind_backtrace cfg frames 0 s))
   \<and> frame_lines (serial (snd (snd (unwind_backtrace cfg frames 0 s)))) \<le> frame_lines (serial s) + 32
   \<and> (\<forall>k. k < 32 \<and> k < length frames \<and> task_entry cfg (frames ! k)
            \<and> (\<forall>j<k. \<not> task_entry cfg (frames ! j))
          \<longrightarrow> map fst (fst (unwind_backtrace cfg frames 0 s))
                = replicate k URC_NO_REASON @ [URC_END_OF_STACK])
   \<and> ((\<forall>j<length frames. j < 32 \<longrightarrow> \<not> task_entry cfg (frames ! j))
        \<longrightarrow> map fst (fst (unwind_backtrace cfg frames 0 s))
              = (if 32 \<le> length frames then replicate 31 URC_NO_REASON @ [URC_END_OF_STACK]
                 else replicate (length frames) URC_NO_REASON))"
proof -
  have len: "length (fst (unwind_backtrace cfg frames 0 s)) \<le> 32"
    using walk_length [of 0 cfg frames s] by simp
  have lines: "frame_lines (serial (snd (snd (unwind_backtrace cfg frames 0 s))))
       = frame_lines (serial s) + length (fst (unwind_backtrace cfg frames 0 s))"
    by (rule walk_lines)
  have stop: "map fst (fst (unwind_backtrace cfg frames 0 s))
                = replicate k URC_NO_REASON @ [URC_END_OF_STACK]"
    if "k < 32 \<and> k < length frames \<and> task_entry cfg (frames ! k)
            \<and> (\<forall>j<k. \<not> task_entry cfg (frames ! j))" for k
    using that by (intro walk_to_entry) simp_all
  have cap: "map fst (fst (unwind_backtrace cfg frames 0 s))
              = (if 32 \<le> length frames then replicate 31 URC_NO_REASON @ [URC_END_OF_STACK]
                 else replicate (length frames) URC_NO_REASON)"
    if "\<forall>j<length frames. j < 32 \<longrightarrow> \<not> task_entry cfg (frames ! j)"
    using walk_no_entry [of 0 frames cfg s] that by simp
  from len lines stop cap show ?thesis by (intro conjI allI impI) simp_all
qed


text \<open>
  Two instances: a sequence whose third frame is the task entry, and a sequence of 40
  frames without one.
\<close>

theorem frame_walk_stops_witness:
  "(2::nat) < 32
   \<and> 2 < length [frame_at 0x1000, frame_at 0x2000, frame_at 0x3A50, frame_at 0x4000]
   \<and> task_entry (example_config False) (frame_at 0x3A50)
   \<and> \<not> task_entry (example_config False) (frame_at 0x1000)
   \<and> \<not> task_entry (example_config False) (frame_at 0x2000)
   \<and> map fst (fst (unwind_backtrace (example_config False)
          [frame_at 0x1000, frame_at 0x2000, frame_at 0x3A50, frame_at 0x4000] 0
          (boot (example_config False) no_strings)))
       = [URC_NO_REASON, URC_NO_REASON, URC_END_OF_STACK]
   \<and> frame_lines (serial (snd (snd (unwind_backtrace (example_config False)
          [frame_at 0x1000, frame_at 0x2000, frame_at 0x3A50, frame_at 0x4000] 0
          (boot (example_config False) no_strings))))) = 3
   \<and> map fst (fst (unwind_backtrace (example_config False) (replicate 40 (frame_at 0x1000)) 0
          (boot (example_config False) no_strings)))
       = replicate 31 URC_NO_REASON @ [URC_END_OF_STACK]
   \<and> frame_lines (serial (snd (snd (unwind_backtrace (example_config False)
          (replicate 40 (frame_at 0x1000)) 0 (boot (example_config False) no_strings))))) = 32"
proof -
  let ?cfg = "example_config False"
  let ?s = "boot ?cfg no_strings"
  let ?fs = "[frame_at 0x1000, frame_at 0x2000, frame_at 0x3A50, frame_at 0x4000]"
  let ?us = "replicate 40 (frame_at 0x1000)"
  have e: "task_entry ?cfg (frame_at 0x3A50)"
    and n1: "\<not> task_entry ?cfg (frame_at 0x1000)"
    and n2: "\<not> task_entry ?cfg (frame_at 0x2000)"
    by (simp_all add: task_entry_def example_config_def frame_at_def)
  have s0: "frame_lines (serial ?s) = 0" by (simp add: boot_def frame_lines_def)
  have first: "\<forall>j<2. \<not> task_entry ?cfg (?fs ! j)"
    using n1 n2 by (simp add: less_Suc_eq numeral_2_eq_2)
  note w = frame_walk_stops [of ?cfg ?fs ?s]
  from w have "(2::nat) < 32 \<and> 2 < length ?fs \<and> task_entry ?cfg (?fs ! 2)
            \<and> (\<forall>j<2. \<not> task_entry ?cfg (?fs ! j))
          \<longrightarrow> map fst (fst (unwind_backtrace ?cfg ?fs 0 ?s))
                = replicate 2 URC_NO_REASON @ [URC_END_OF_STACK]"
    by blast
  with e first have codes: "map fst (fst (unwind_backtrace ?cfg ?fs 0 ?s))
       = [URC_NO_REASON, URC_NO_REASON, URC_END_OF_STACK]"
    by (simp add: numeral_2_eq_2)
  then have "length (fst (unwind_backtrace ?cfg ?fs 0 ?s)) = 3"
    by (metis length_map length_Cons list.size(3) numeral_3_eq_3)
  with w s0 have lines: "frame_lines (serial (snd (snd (unwind_backtrace ?cfg ?fs 0 ?s)))) = 3"
    by simp
  note u = frame_walk_stops [of ?cfg ?us ?s]
  have none: "\<forall>j<length ?us. j < 32 \<longrightarrow> \<not> task_entry ?cfg (?us ! j)"
    using n1 by simp
  from u have "(\<forall>j<length ?us. j < 32 \<longrightarrow> \<not> task_entry ?cfg (?us ! j))
        \<longrightarrow> map fst (fst (unwind_backtrace ?cfg ?us 0 ?s))
              = (if 32 \<le> length ?us then replicate 31 URC_NO_REASON @ [URC_END_OF_STACK]
                 else replicate (length ?us) URC_NO_REASON)"
    by blast
  with none have ucodes: "map fst (fst (unwind_backtrace ?cfg ?us 0 ?s))
       = replicate 31 URC_NO_REASON @ [URC_END_OF_STACK]"
    by simp
  then have "length (map fst (fst (unwind_backtrace ?cfg ?us 0 ?s))) = 32"
    by simp
  then have "length (fst (unwind_backtrace ?cfg ?us 0 ?s)) = 32"
    by simp
  with u s0 have ulines: "frame_lines (serial (snd (snd (unwind_backtrace ?cfg ?us 0 ?s)))) = 32"
    by simp
  from e n1 n2 codes lines ucodes ulines show ?thesis by simp
qed

text \<open>The contexts as the walk leaves them, with and without a pending override.\<close>

lemma walk_disarmed:
  assumes "g_trace_lr s = 0"
  shows "map snd (fst (unwind_backtrace cfg frames depth s))
           = take (length (fst (unwind_backtrace cfg frames depth s))) frames
         \<and> g_trace_lr (snd (snd (unwind_backtrace cfg frames depth s))) = 0"
  using assms
proof (induction frames arbitrary: depth s)
  case Nil
  then show ?case by simp
next
  case (Cons ctx ctxs)
  show ?case
  proof (cases "task_entry cfg ctx")
    case True
    with Cons.prems show ?thesis by (simp add: walk_entry trace_fcn_entry)
  next
    case False
    let ?s' = "snd (snd (snd (trace_fcn cfg ctx depth s)))"
    have lr: "g_trace_lr ?s' = 0" using False by (rule trace_fcn_frame)
    show ?thesis
    proof (cases "depth + 1 = 32")
      case True
      with False Cons.prems lr show ?thesis by (simp add: walk_cap)
    next
      case stay: False
      from Cons.IH [OF lr, of "depth + 1"] False stay Cons.prems show ?thesis
        by (simp add: walk_step)
    qed
  qed
qed

lemma walk_armed:
  assumes "g_trace_lr s \<noteq> 0" and "\<not> task_entry cfg ctx"
  shows "map snd (fst (unwind_backtrace cfg (ctx # ctxs) depth s))
           = Unwind_SetGR ctx 14 (g_trace_lr s)
               # take (length (fst (unwind_backtrace cfg (ctx # ctxs) depth s)) - 1) ctxs
         \<and> g_trace_lr (snd (snd (unwind_backtrace cfg (ctx # ctxs) depth s))) = 0"
proof -
  let ?s' = "snd (snd (snd (trace_fcn cfg ctx depth s)))"
  have lr: "g_trace_lr ?s' = 0" using assms(2) by (rule trace_fcn_frame)
  show ?thesis
  proof (cases "depth + 1 = 32")
    case True
    with assms lr show ?thesis by (simp add: walk_cap)
  next
    case False
    with walk_disarmed [OF lr, of cfg ctxs "depth + 1"] assms show ?thesis
      by (simp add: walk_step)
  qed
qed

lemma walk_entry_first:
  assumes "task_entry cfg ctx"
  shows "map snd (fst (unwind_backtrace cfg (ctx # ctxs) depth s)) = [ctx]
         \<and> g_trace_lr (snd (snd (unwind_backtrace cfg (ctx # ctxs) depth s))) = g_trace_lr s"
  using assms by (simp add: walk_entry trace_fcn_entry)

text \<open>
  Claim C8, amended: the override is written for at most one frame. With \<^verbatim>\<open>g_trace_lr\<close>
  zero, every visited context is left as it was. With \<^verbatim>\<open>g_trace_lr\<close> non-zero and a first
  frame that is not a task-entry frame, register 14 of the first frame is set to
  \<^verbatim>\<open>g_trace_lr\<close>, \<^verbatim>\<open>g_trace_lr\<close> is cleared, and every later context is left as it was. With
  \<^verbatim>\<open>g_trace_lr\<close> non-zero and a first frame that is a task-entry frame (or no frame), the
  walk ends there: no register is written and \<^verbatim>\<open>g_trace_lr\<close> keeps its value.
\<close>

theorem link_register_override:
  "(g_trace_lr s = 0 \<longrightarrow>
      map snd (fst (unwind_backtrace cfg frames depth s))
        = take (length (fst (unwind_backtrace cfg frames depth s))) frames
      \<and> g_trace_lr (snd (snd (unwind_backtrace cfg frames depth s))) = 0)
   \<and> (g_trace_lr s \<noteq> 0 \<and> frames \<noteq> [] \<and> \<not> task_entry cfg (hd frames) \<longrightarrow>
      map snd (fst (unwind_backtrace cfg frames depth s))
        = (hd frames)\<lparr>gr := (gr (hd frames))[14 := g_trace_lr s]\<rparr>
            # take (length (fst (unwind_backtrace cfg frames depth s)) - 1) (tl frames)
      \<and> g_trace_lr (snd (snd (unwind_backtrace cfg frames depth s))) = 0)
   \<and> (g_trace_lr s \<noteq> 0 \<and> (frames = [] \<or> task_entry cfg (hd frames)) \<longrightarrow>
      map snd (fst (unwind_backtrace cfg frames depth s))
        = take (length (fst (unwind_backtrace cfg frames depth s))) frames
      \<and> g_trace_lr (snd (snd (unwind_backtrace cfg frames depth s))) = g_trace_lr s)"
proof (intro conjI impI)
  assume "g_trace_lr s = 0"
  then show "map snd (fst (unwind_backtrace cfg frames depth s))
        = take (length (fst (unwind_backtrace cfg frames depth s))) frames"
    and "g_trace_lr (snd (snd (unwind_backtrace cfg frames depth s))) = 0"
    using walk_disarmed by blast+
next
  assume a: "g_trace_lr s \<noteq> 0 \<and> frames \<noteq> [] \<and> \<not> task_entry cfg (hd frames)"
  then obtain ctx ctxs where f: "frames = ctx # ctxs" by (cases frames) auto
  with a walk_armed [of s cfg ctx ctxs depth]
  show "map snd (fst (unwind_backtrace cfg frames depth s))
        = (hd frames)\<lparr>gr := (gr (hd frames))[14 := g_trace_lr s]\<rparr>
            # take (length (fst (unwind_backtrace cfg frames depth s)) - 1) (tl frames)"
    and "g_trace_lr (snd (snd (unwind_backtrace cfg frames depth s))) = 0"
    by (simp_all add: Unwind_SetGR_def)
next
  assume a: "g_trace_lr s \<noteq> 0 \<and> (frames = [] \<or> task_entry cfg (hd frames))"
  show "map snd (fst (unwind_backtrace cfg frames depth s))
        = take (length (fst (unwind_backtrace cfg frames depth s))) frames"
    and "g_trace_lr (snd (snd (unwind_backtrace cfg frames depth s))) = g_trace_lr s"
  proof -
    show "map snd (fst (unwind_backtrace cfg frames depth s))
        = take (length (fst (unwind_backtrace cfg frames depth s))) frames"
    proof (cases frames)
      case Nil
      then show ?thesis by simp
    next
      case (Cons ctx ctxs)
      with a walk_entry_first [of cfg ctx ctxs depth s] show ?thesis by (simp add: walk_entry)
    qed
    show "g_trace_lr (snd (snd (unwind_backtrace cfg frames depth s))) = g_trace_lr s"
    proof (cases frames)
      case Nil
      then show ?thesis by simp
    next
      case (Cons ctx ctxs)
      with a walk_entry_first [of cfg ctx ctxs depth s] show ?thesis by simp
    qed
  qed
qed

text \<open>
  An instance for a pending override and one for none, on a sequence whose third frame
  is the task entry.
\<close>

theorem link_register_override_witness:
  "g_trace_lr ((boot (example_config False) no_strings)\<lparr>g_trace_lr := 0x2345\<rparr>) \<noteq> 0
   \<and> \<not> task_entry (example_config False) (frame_at 0x1000)
   \<and> map snd (fst (unwind_backtrace (example_config False)
          [frame_at 0x1000, frame_at 0x2000, frame_at 0x3A50] 0
          ((boot (example_config False) no_strings)\<lparr>g_trace_lr := 0x2345\<rparr>)))
       = [(frame_at 0x1000)\<lparr>gr := (replicate 16 0)[14 := 0x2345]\<rparr>, frame_at 0x2000, frame_at 0x3A50]
   \<and> g_trace_lr (snd (snd (unwind_backtrace (example_config False)
          [frame_at 0x1000, frame_at 0x2000, frame_at 0x3A50] 0
          ((boot (example_config False) no_strings)\<lparr>g_trace_lr := 0x2345\<rparr>)))) = 0
   \<and> g_trace_lr (boot (example_config False) no_strings) = 0
   \<and> map snd (fst (unwind_backtrace (example_config False)
          [frame_at 0x1000, frame_at 0x2000, frame_at 0x3A50] 0
          (boot (example_config False) no_strings)))
       = [frame_at 0x1000, frame_at 0x2000, frame_at 0x3A50]"
proof -
  let ?cfg = "example_config False"
  let ?s = "boot ?cfg no_strings"
  let ?a = "?s\<lparr>g_trace_lr := 0x2345\<rparr>"
  let ?fs = "[frame_at 0x1000, frame_at 0x2000, frame_at 0x3A50]"
  have e3: "task_entry ?cfg (frame_at 0x3A50)"
    and n1: "\<not> task_entry ?cfg (frame_at 0x1000)"
    and n2: "\<not> task_entry ?cfg (frame_at 0x2000)"
    by (simp_all add: task_entry_def example_config_def frame_at_def)
  have e: "task_entry ?cfg (?fs ! 2)"
    using e3 by (simp add: numeral_2_eq_2)
  have n: "\<forall>j<2. \<not> task_entry ?cfg (?fs ! j)"
    using n1 n2 by (simp add: less_Suc_eq numeral_2_eq_2)
  have len: "length (fst (unwind_backtrace ?cfg ?fs 0 t)) = 3" for t
  proof -
    have "map fst (fst (unwind_backtrace ?cfg ?fs 0 t)) = replicate 2 URC_NO_REASON @ [URC_END_OF_STACK]"
      using e n by (intro walk_to_entry) simp_all
    then have "length (map fst (fst (unwind_backtrace ?cfg ?fs 0 t))) = 3" by simp
    then show ?thesis by simp
  qed
  have armed: "g_trace_lr ?a \<noteq> 0" and off: "g_trace_lr ?s = 0"
    by (simp_all add: boot_def)
  from link_register_override [of ?a ?cfg ?fs 0] armed n1 len [of ?a]
  have w1: "map snd (fst (unwind_backtrace ?cfg ?fs 0 ?a))
       = [(frame_at 0x1000)\<lparr>gr := (replicate 16 0)[14 := 0x2345]\<rparr>, frame_at 0x2000, frame_at 0x3A50]
     \<and> g_trace_lr (snd (snd (unwind_backtrace ?cfg ?fs 0 ?a))) = 0"
    by (simp add: frame_at_def boot_def)
  from link_register_override [of ?s ?cfg ?fs 0] off len [of ?s]
  have w2: "map snd (fst (unwind_backtrace ?cfg ?fs 0 ?s)) = ?fs"
    by simp
  from armed n1 w1 off w2 show ?thesis by simp
qed

text \<open>
  The claim as stated (a non-zero \<^verbatim>\<open>g_trace_lr\<close> is written for exactly one frame and then
  cleared) fails when the first frame has a zero instruction pointer: the callback
  returns before the override is looked at.
\<close>

theorem override_kept_at_task_entry:
  "g_trace_lr ((boot (example_config False) no_strings)\<lparr>g_trace_lr := 0x2345\<rparr>) \<noteq> 0
   \<and> map snd (fst (unwind_backtrace (example_config False) [frame_at 0, frame_at 0x1000] 0
          ((boot (example_config False) no_strings)\<lparr>g_trace_lr := 0x2345\<rparr>)))
       = [frame_at 0]
   \<and> g_trace_lr (snd (snd (unwind_backtrace (example_config False) [frame_at 0, frame_at 0x1000] 0
          ((boot (example_config False) no_strings)\<lparr>g_trace_lr := 0x2345\<rparr>)))) = 0x2345"
proof -
  have "task_entry (example_config False) (frame_at 0)"
    by (simp add: task_entry_def frame_at_def)
  from walk_entry_first [OF this, of "[frame_at 0x1000]" 0
      "(boot (example_config False) no_strings)\<lparr>g_trace_lr := 0x2345\<rparr>"]
  show ?thesis by (simp add: boot_def)
qed

subsection \<open>Wall clock\<close>

text \<open>
  The microsecond field of a reading of the monotonic counter lies in \<open>[0, 1000000)\<close>.
\<close>

lemma timeval_of_us_usec: "0 \<le> tv_usec (timeval_of_us t) \<and> tv_usec (timeval_of_us t) < 1000000"
  by (simp add: timeval_of_us_def uint_mod_distrib)

text \<open>
  When the monotonic time is behind the real-time clock, the stored offset is
  \<open>real - monotonic\<close>, and a query at the same monotonic time gives the clock's reading.
\<close>

lemma sync_rtc_behind:
  assumes "timercmp_less (timeval_of_us now_us) \<lparr>tv_sec = uint rtc_secs, tv_usec = 0\<rparr>"
  shows "fst (gettimeofday (sync_rtc now_us rtc_secs c) now_us)
           = \<lparr>tv_sec = uint rtc_secs, tv_usec = 0\<rparr>"
  using assms timeval_of_us_usec [of now_us]
  by (auto simp: gettimeofday_def sync_rtc_def timercmp_less_def
      timersub_def timeradd_def Let_def split: if_splits)

text \<open>
  Claim C1 (the offset obeys \<open>monotonic + offset = real\<close> in both branches of
  \<^verbatim>\<open>sync_rtc\<close>, so that a query right after the synchronisation gives the real-time
  clock's reading). The code at a monotonic time of 10 s and a clock reading of 4 s: the
  branch for \<open>now \<ge> rtc\<close> stores \<open>now - rtc\<close> = 6 s, and the query at the same monotonic time
  answers 16 s where the clock reads 4 s. With the two values exchanged the other branch
  stores \<open>rtc - now\<close> and the query answers the clock's 10 s.
\<close>

theorem gettimeofday_after_sync_ahead:
  "fst (gettimeofday (sync_rtc 10000000 4 c) 10000000) = \<lparr>tv_sec = 16, tv_usec = 0\<rparr>
   \<and> fst (gettimeofday (sync_rtc 4000000 10 c) 4000000) = \<lparr>tv_sec = 10, tv_usec = 0\<rparr>"
  by (simp add: gettimeofday_def sync_rtc_def timeval_of_us_def timercmp_less_def
        timersub_def timeradd_def Let_def)

subsection \<open>Scheduler bridge\<close>

text \<open>
  Claim C9: with the scheduler not started or no yield target registered, \<^verbatim>\<open>yield\<close> makes
  one call, to the scheduler's busy-yield \<^verbatim>\<open>freertos::yield\<close>, and sends no notification;
  with no event responder registered, \<^verbatim>\<open>event_responder_set_pend_sv\<close> changes nothing and
  calls nothing.
\<close>

theorem bridge_absent_target:
  "(xTaskGetSchedulerState b = taskSCHEDULER_NOT_STARTED \<or> g_yield_task b = 0
      \<longrightarrow> yield b = b\<lparr>rtos_calls := rtos_calls b @ [freertos_yield]\<rparr>)
   \<and> (g_event_responder_task b = 0 \<longrightarrow> event_responder_set_pend_sv b = b)"
  by (simp add: yield_def event_responder_set_pend_sv_def rtos_def)

theorem bridge_absent_target_witness:
  "g_yield_task \<lparr>g_yield_task = 0, g_event_responder_task = 0,
       xTaskGetSchedulerState = taskSCHEDULER_RUNNING, xPortIsInsideInterrupt = True,
       rtos_calls = []\<rparr> = 0
   \<and> yield \<lparr>g_yield_task = 0, g_event_responder_task = 0,
       xTaskGetSchedulerState = taskSCHEDULER_RUNNING, xPortIsInsideInterrupt = True,
       rtos_calls = []\<rparr>
     = \<lparr>g_yield_task = 0, g_event_responder_task = 0,
       xTaskGetSchedulerState = taskSCHEDULER_RUNNING, xPortIsInsideInterrupt = True,
       rtos_calls = [freertos_yield]\<rparr>
   \<and> event_responder_set_pend_sv \<lparr>g_yield_task = 0, g_event_responder_task = 0,
       xTaskGetSchedulerState = taskSCHEDULER_RUNNING, xPortIsInsideInterrupt = True,
       rtos_calls = []\<rparr>
     = \<lparr>g_yield_task = 0, g_event_responder_task = 0,
       xTaskGetSchedulerState = taskSCHEDULER_RUNNING, xPortIsInsideInterrupt = True,
       rtos_calls = []\<rparr>"
  using bridge_absent_target [of "\<lparr>g_yield_task = 0, g_event_responder_task = 0,
       xTaskGetSchedulerState = taskSCHEDULER_RUNNING, xPortIsInsideInterrupt = True,
       rtos_calls = []\<rparr>"]
  by simp

end
